theory Spec2Isabelle
  imports Complex_Main
begin

section \<open>Data model\<close>

text \<open>
  Times. \<^verbatim>\<open>Timestamp.now()\<close> of the Firestore client is \<^verbatim>\<open>Timestamp.fromMillis(Date.now())\<close>
  and a JavaScript \<^verbatim>\<open>Date\<close> written to the store becomes a Timestamp of the same
  millisecond, so every time value is modelled as an integer number of milliseconds;
  the \<^verbatim>\<open>.seconds\<close> property is the floor of the milliseconds divided by 1000.
  JavaScript numbers are modelled as integers, for magnitudes within the range of a
  JavaScript \<^verbatim>\<open>Date\<close> (8.64e15, inside the safe-integer range, where the double
  arithmetic of the source is exact); the one division of the source is a real division
  followed by \<^verbatim>\<open>Math.ceil\<close>. Clock reads are taken to lie in the range of a store
  Timestamp.
\<close>

type_synonym timestamp = int

definition seconds :: "timestamp \<Rightarrow> int" where
  "seconds t = t div 1000"

text \<open>A document of the collection \<^verbatim>\<open>students\<close>; \<^verbatim>\<open>points\<close> may be absent or null.\<close>

record student =
  name :: string
  email :: string
  points :: "int option"
  lastUsed :: "timestamp option"

datatype txn_status = InProgress | Completed | Cancelled

text \<open>
  A document of the collection \<^verbatim>\<open>transactions\<close>. The field \<^verbatim>\<open>email\<close> of the source is
  \<open>studentEmail\<close> here (the name is taken by the student record).
\<close>

record transaction =
  rfid :: string
  studentName :: string
  studentEmail :: string
  pointsUsed :: int
  socketType :: string
  socketNumber :: int
  startTime :: timestamp
  expectedEndTime :: "timestamp option"
  actualEndTime :: "timestamp option"
  status :: txn_status
  remainingPoints :: int
  duration :: "int option"
  createdAt :: timestamp
  updatedAt :: timestamp
  pointsRefunded :: "int option"
  actualPointsUsed :: "int option"

text \<open>
  The software stand-in of an output pin (class \<^verbatim>\<open>MockGpio\<close>); its field \<^verbatim>\<open>value\<close> is
  \<open>gpio_value\<close> here.
\<close>

record MockGpio =
  pin :: nat
  direction :: string
  gpio_value :: nat

text \<open>
  The mutable state the program works on: the two Firestore collections and the
  module-level registry \<^verbatim>\<open>gpioInstances\<close>. A student document is found under its path
  below the collection (see \<open>docId\<close>). A transaction's document id is its position
  in the list of transactions (\<^verbatim>\<open>addDoc\<close> appends under a fresh id; nothing is ever
  deleted). \<open>constructed\<close> records the pins for which \<^verbatim>\<open>new Gpio\<close> has been called,
  in call order.
\<close>

record world =
  students :: "string \<rightharpoonup> student"
  transactions :: "transaction list"
  gpioInstances :: "int \<rightharpoonup> MockGpio"
  constructed :: "nat list"

text \<open>
  The errors of the source, by their messages: "Missing required fields", "Student not
  found", "You already have an active charging session", "Insufficient points",
  "Transaction ID is required", "Transaction not found", the type error of reading a
  field of \<^verbatim>\<open>undefined\<close>, the store's error for updating a document that does not
  exist, "Invalid socket number", and the two errors of the store's client for a string
  that is no document reference and for a time outside the range of a Timestamp.
\<close>

datatype error =
    MissingFields
  | StudentNotFound
  | ActiveSessionExists
  | InsufficientPoints
  | TransactionIdRequired
  | TransactionNotFound
  | TypeError
  | DocumentMissing
  | InvalidSocketNumber
  | InvalidDocumentReference
  | TimestampOutOfRange

text \<open>What a controller sends: an HTTP status with an error, or the success body.\<close>

datatype response =
    Failure nat error
  | Started nat "int option" int
  | Stopped nat transaction "int option"

section \<open>The client of the store\<close>

text \<open>
  The Firestore client library is not part of the repository; two of its checks decide
  what the handlers answer and are modelled here as the library documents them.

  \<^verbatim>\<open>doc(db, "students", id)\<close> reads the id as a path: it throws when the id contains two
  slashes in a row, splits it at the slashes, drops the empty segments, and throws unless
  the whole path, collection name included, has an even number of segments. \<open>docId\<close> is
  the path below the collection that the reference then names, or \<open>None\<close> when the call
  throws. An id without a slash names itself.
\<close>

fun splitSlash :: "string \<Rightarrow> string list" where
  "splitSlash [] = [[]]"
| "splitSlash (c # cs) =
    (if c = CHR ''/'' then [] # splitSlash cs
     else (case splitSlash cs of
             [] \<Rightarrow> [[c]]
           | s # ss \<Rightarrow> (c # s) # ss))"

definition segments :: "string \<Rightarrow> string list" where
  "segments r = filter (\<lambda>s. s \<noteq> []) (splitSlash r)"

fun doubleSlash :: "string \<Rightarrow> bool" where
  "doubleSlash (a # b # cs) = ((a = CHR ''/'' \<and> b = CHR ''/'') \<or> doubleSlash (b # cs))"
| "doubleSlash [a] = False"
| "doubleSlash [] = False"

fun joinSlash :: "string list \<Rightarrow> string" where
  "joinSlash [] = []"
| "joinSlash [s] = s"
| "joinSlash (s # t # ss) = s @ CHR ''/'' # joinSlash (t # ss)"

definition docId :: "string \<Rightarrow> string option" where
  "docId r =
    (if doubleSlash r \<or> even (length (segments r)) then None
     else Some (joinSlash (segments r)))"

text \<open>
  A \<^verbatim>\<open>Date\<close> in the data of a write is turned into a Timestamp, whose constructor throws
  unless its seconds lie between the years 1 and 9999; the write is then not made.
\<close>

definition timestampInRange :: "timestamp \<Rightarrow> bool" where
  "timestampInRange t = (- 62135596800 \<le> seconds t \<and> seconds t < 253402300800)"

section \<open>TransactionModel\<close>

text \<open>The argument object of \<^verbatim>\<open>createTransaction\<close>; optional fields are options.\<close>

record transactionData =
  td_rfid :: string
  td_studentName :: string
  td_email :: string
  td_pointsToSpend :: int
  td_socketType :: string
  td_socketNumber :: int
  td_startTime :: "timestamp option"
  td_expectedEndTime :: "timestamp option"
  td_status :: "txn_status option"

text \<open>\<^verbatim>\<open>studentData.points || 0\<close>\<close>

definition pointsOrZero :: "student \<Rightarrow> int" where
  "pointsOrZero s = (case points s of None \<Rightarrow> 0 | Some n \<Rightarrow> n)"

text \<open>The record written by \<^verbatim>\<open>createTransaction\<close> (lines 49 to 64).\<close>

definition buildTransaction :: "transactionData \<Rightarrow> int \<Rightarrow> timestamp \<Rightarrow> transaction" where
  "buildTransaction td remainingPoints' now =
    \<lparr> rfid = td_rfid td,
      studentName = td_studentName td,
      studentEmail = td_email td,
      pointsUsed = td_pointsToSpend td,
      socketType = td_socketType td,
      socketNumber = td_socketNumber td,
      startTime = (case td_startTime td of Some t \<Rightarrow> t | None \<Rightarrow> now),
      expectedEndTime = td_expectedEndTime td,
      actualEndTime = None,
      status = (case td_status td of Some s \<Rightarrow> s | None \<Rightarrow> InProgress),
      remainingPoints = remainingPoints',
      duration = None,
      createdAt = now,
      updatedAt = now,
      pointsRefunded = None,
      actualPointsUsed = None \<rparr>"

text \<open>
  What \<^verbatim>\<open>addDoc\<close> checks before it writes: the expected end time, the one \<^verbatim>\<open>Date\<close> in
  the record, must be in the range of a Timestamp.
\<close>

definition writable :: "transaction \<Rightarrow> bool" where
  "writable txn = (case expectedEndTime txn of None \<Rightarrow> True | Some t \<Rightarrow> timestampInRange t)"

text \<open>
  \<^verbatim>\<open>createTransaction\<close>, run without interruption. \<open>now\<close> is the clock read while the
  record is built (lines 56 to 63), \<open>nowLater\<close> the one after \<^verbatim>\<open>addDoc\<close> has returned
  (line 72). The result is the thrown error or the new document id, and the new state.
\<close>

definition createTransaction ::
  "world \<Rightarrow> transactionData \<Rightarrow> timestamp \<Rightarrow> timestamp \<Rightarrow> (error + nat) \<times> world" where
  "createTransaction w td now nowLater =
    (case docId (td_rfid td) of
       None \<Rightarrow> (Inl InvalidDocumentReference, w)
     | Some studentRef \<Rightarrow>
         (case students w studentRef of
            None \<Rightarrow> (Inl StudentNotFound, w)
          | Some studentData \<Rightarrow>
              let currentPoints = pointsOrZero studentData in
              if currentPoints < td_pointsToSpend td then (Inl InsufficientPoints, w)
              else
                let remainingPoints' = currentPoints - td_pointsToSpend td;
                    txn = buildTransaction td remainingPoints' now
                in
                if \<not> writable txn then (Inl TimestampOutOfRange, w)
                else
                  let transactionId = length (transactions w);
                      w1 = w\<lparr>transactions := transactions w @ [txn]\<rparr>;
                      w2 = w1\<lparr>students := (students w1)(studentRef \<mapsto>
                               studentData\<lparr>points := Some remainingPoints',
                                            lastUsed := Some nowLater\<rparr>)\<rparr>
                  in (Inr transactionId, w2)))"

text \<open>\<^verbatim>\<open>getDoc(doc(db, "transactions", id))\<close>\<close>

definition getTransactionDoc :: "world \<Rightarrow> nat \<Rightarrow> transaction option" where
  "getTransactionDoc w i =
    (if i < length (transactions w) then Some (transactions w ! i) else None)"

text \<open>
  \<^verbatim>\<open>completeTransaction\<close>: \<open>updates\<close> is the object of changed fields, applied both to
  the snapshot that is returned and to the stored document.
\<close>

definition finishTransaction ::
  "world \<Rightarrow> nat \<Rightarrow> transaction \<Rightarrow> (transaction \<Rightarrow> transaction) \<Rightarrow>
     (error + nat \<times> transaction) \<times> world" where
  "finishTransaction w transactionId transactionData' updates =
    (Inr (transactionId, updates transactionData'),
     w\<lparr>transactions :=
         (transactions w)[transactionId := updates (transactions w ! transactionId)]\<rparr>)"

definition completeTransaction ::
  "world \<Rightarrow> nat \<Rightarrow> txn_status \<Rightarrow> timestamp \<Rightarrow> (error + nat \<times> transaction) \<times> world" where
  "completeTransaction w transactionId st now =
    (case getTransactionDoc w transactionId of
       None \<Rightarrow> (Inl TransactionNotFound, w)
     | Some txn \<Rightarrow>
         let actualEndTime' = now;
             startTimeSeconds = seconds (startTime txn);
             endTimeSeconds = seconds actualEndTime';
             durationSeconds = endTimeSeconds - startTimeSeconds;
             updates = (\<lambda>t. t\<lparr>status := st,
                               actualEndTime := Some actualEndTime',
                               duration := Some durationSeconds,
                               updatedAt := now\<rparr>)
         in
         if st = Cancelled \<and> status txn = InProgress then
           let expectedDuration = pointsUsed txn * 120;
               usedDuration = min durationSeconds expectedDuration;
               usedPoints = \<lceil>real_of_int usedDuration / 120\<rceil>;
               refundPoints = pointsUsed txn - usedPoints
           in
           if refundPoints > 0 then
             (case docId (rfid txn) of
                None \<Rightarrow> (Inl InvalidDocumentReference, w)
              | Some studentRef \<Rightarrow>
                  (case students w studentRef of
                     Some studentDoc \<Rightarrow>
                       let currentPoints = pointsOrZero studentDoc;
                           w1 = w\<lparr>students := (students w)(studentRef \<mapsto>
                                    studentDoc\<lparr>points := Some (currentPoints + refundPoints)\<rparr>)\<rparr>;
                           updates' = (\<lambda>t. (updates t)\<lparr>pointsRefunded := Some refundPoints,
                                              actualPointsUsed := Some usedPoints,
                                              remainingPoints := currentPoints + refundPoints\<rparr>)
                       in finishTransaction w1 transactionId txn updates'
                   | None \<Rightarrow> finishTransaction w transactionId txn updates))
           else finishTransaction w transactionId txn updates
         else finishTransaction w transactionId txn updates)"

text \<open>
  \<^verbatim>\<open>getActiveTransaction\<close>: the in-progress documents of the holder, paired with their
  ids; of several, the first one with the greatest \<^verbatim>\<open>createdAt.seconds\<close>.
\<close>

definition activeDocs :: "world \<Rightarrow> string \<Rightarrow> (nat \<times> transaction) list" where
  "activeDocs w r =
    filter (\<lambda>(i, t). rfid t = r \<and> status t = InProgress) (enumerate 0 (transactions w))"

fun latestOf :: "nat \<times> transaction \<Rightarrow> (nat \<times> transaction) list \<Rightarrow> nat \<times> transaction" where
  "latestOf latestDoc [] = latestDoc"
| "latestOf latestDoc (d # ds) =
     latestOf (if seconds (createdAt (snd d)) > seconds (createdAt (snd latestDoc))
               then d else latestDoc) ds"

definition getActiveTransaction :: "world \<Rightarrow> string \<Rightarrow> (nat \<times> transaction) option" where
  "getActiveTransaction w r =
    (case activeDocs w r of
       [] \<Rightarrow> None
     | d # ds \<Rightarrow> Some (latestOf d (d # ds)))"

section \<open>Controllers\<close>

text \<open>
  \<^verbatim>\<open>startChargingSession\<close>, run without interruption. The request fields are options
  (absent or null is \<open>None\<close>), the holder id and the socket type strings, the points
  and the socket number numbers; \<open>dateNow\<close> is the \<^verbatim>\<open>Date.now()\<close> of line 214, \<open>now\<close> and
  \<open>nowLater\<close> are the later clock reads inside \<^verbatim>\<open>createTransaction\<close>. Every error thrown
  inside the handler is answered with status 500.
\<close>

definition startChargingSession ::
  "world \<Rightarrow> string option \<Rightarrow> int option \<Rightarrow> string option \<Rightarrow> int option \<Rightarrow>
     timestamp \<Rightarrow> timestamp \<Rightarrow> timestamp \<Rightarrow> response \<times> world" where
  "startChargingSession w rfid' pointsToSpend socketType' socketNumber' dateNow now nowLater =
    (case (rfid', pointsToSpend, socketType', socketNumber') of
       (Some r, Some p, Some ty, Some n) \<Rightarrow>
         if r = [] \<or> p = 0 \<or> ty = [] \<or> n = 0 then (Failure 400 MissingFields, w)
         else
           (case docId r of
              None \<Rightarrow> (Failure 500 InvalidDocumentReference, w)
            | Some studentRef \<Rightarrow>
                (case students w studentRef of
                   None \<Rightarrow> (Failure 404 StudentNotFound, w)
                 | Some studentData \<Rightarrow>
                     (case getActiveTransaction w r of
                        Some activeTransaction \<Rightarrow> (Failure 400 ActiveSessionExists, w)
                      | None \<Rightarrow>
                          let durationSeconds = p * 120;
                              expectedEndTime' = dateNow + durationSeconds * 1000
                          in
                          (case createTransaction w
                                  \<lparr> td_rfid = r,
                                    td_studentName = name studentData,
                                    td_email = email studentData,
                                    td_pointsToSpend = p,
                                    td_socketType = ty,
                                    td_socketNumber = n,
                                    td_startTime = None,
                                    td_expectedEndTime = Some expectedEndTime',
                                    td_status = None \<rparr> now nowLater of
                             (Inl e, w') \<Rightarrow> (Failure 500 e, w')
                           | (Inr transactionId, w') \<Rightarrow>
                               (case students w' studentRef of
                                  None \<Rightarrow> (Failure 500 TypeError, w')
                                | Some updatedStudentData \<Rightarrow>
                                    (Started transactionId (points updatedStudentData)
                                       durationSeconds, w'))))))
     | _ \<Rightarrow> (Failure 400 MissingFields, w))"

text \<open>
  \<^verbatim>\<open>stopChargingSession\<close>: the requested status is a string; anything but
  \<^verbatim>\<open>"cancelled"\<close> means completed. Document ids are non-empty strings in the store, so
  the only falsy transaction id is a missing one, \<open>None\<close>; an id that names no stored
  transaction is a number beyond the list.
\<close>

definition stopChargingSession ::
  "world \<Rightarrow> nat option \<Rightarrow> string option \<Rightarrow> timestamp \<Rightarrow> response \<times> world" where
  "stopChargingSession w transactionId' status' now =
    (case transactionId' of
       None \<Rightarrow> (Failure 400 TransactionIdRequired, w)
     | Some transactionId \<Rightarrow>
         let finalStatus = (if status' = Some ''cancelled'' then Cancelled else Completed) in
         (case completeTransaction w transactionId finalStatus now of
            (Inl e, w') \<Rightarrow> (Failure 500 e, w')
          | (Inr (i, updatedTransaction), w') \<Rightarrow>
              (case docId (rfid updatedTransaction) of
                 None \<Rightarrow> (Failure 500 InvalidDocumentReference, w')
               | Some studentRef \<Rightarrow>
                   (case students w' studentRef of
                      None \<Rightarrow> (Failure 500 TypeError, w')
                    | Some studentData \<Rightarrow>
                        (Stopped i updatedTransaction (points studentData), w')))))"

section \<open>GPIO control\<close>

definition lineMap :: "int \<rightharpoonup> nat" where
  "lineMap = [1 \<mapsto> 73, 2 \<mapsto> 70]"

definition newGpio :: "nat \<Rightarrow> string \<Rightarrow> MockGpio" where
  "newGpio p d = \<lparr> pin = p, direction = d, gpio_value = 0 \<rparr>"

definition writeSync :: "MockGpio \<Rightarrow> nat \<Rightarrow> MockGpio" where
  "writeSync g v = g\<lparr>gpio_value := v\<rparr>"

text \<open>\<^verbatim>\<open>unexport\<close> of the stand-in only logs.\<close>

definition unexport :: "MockGpio \<Rightarrow> MockGpio" where
  "unexport g = g"

text \<open>
  \<^verbatim>\<open>turnOnSocket\<close> and \<^verbatim>\<open>turnOffSocket\<close> throw for a socket number that is not in the
  line map; otherwise they take the registry entry of the socket, constructing it on
  first use, and write 1 or 0 to it. The stand-in raises no error; a write to a missing
  entry would be caught and logged, leaving the state as it is.
\<close>

definition ensureInstance :: "world \<Rightarrow> int \<Rightarrow> nat \<Rightarrow> world" where
  "ensureInstance w socketNumber' gpioNumber =
    (case gpioInstances w socketNumber' of
       Some g \<Rightarrow> w
     | None \<Rightarrow> w\<lparr>gpioInstances := (gpioInstances w)(socketNumber' \<mapsto> newGpio gpioNumber ''out''),
                 constructed := constructed w @ [gpioNumber]\<rparr>)"

definition writeSocket :: "world \<Rightarrow> int \<Rightarrow> nat \<Rightarrow> world" where
  "writeSocket w socketNumber' v =
    (case gpioInstances w socketNumber' of
       Some g \<Rightarrow> w\<lparr>gpioInstances := (gpioInstances w)(socketNumber' \<mapsto> writeSync g v)\<rparr>
     | None \<Rightarrow> w)"

definition turnOnSocket :: "world \<Rightarrow> int \<Rightarrow> error + world" where
  "turnOnSocket w socketNumber' =
    (case lineMap socketNumber' of
       None \<Rightarrow> Inl InvalidSocketNumber
     | Some gpioNumber \<Rightarrow> Inr (writeSocket (ensureInstance w socketNumber' gpioNumber) socketNumber' 1))"

definition turnOffSocket :: "world \<Rightarrow> int \<Rightarrow> error + world" where
  "turnOffSocket w socketNumber' =
    (case lineMap socketNumber' of
       None \<Rightarrow> Inl InvalidSocketNumber
     | Some gpioNumber \<Rightarrow> Inr (writeSocket (ensureInstance w socketNumber' gpioNumber) socketNumber' 0))"

text \<open>
  The \<^verbatim>\<open>SIGINT\<close> handler: every registered instance is written 0 and unexported; the
  process then exits.
\<close>

definition onSIGINT :: "world \<Rightarrow> world" where
  "onSIGINT w = w\<lparr>gpioInstances := map_option (\<lambda>gpio. unexport (writeSync gpio 0)) \<circ> gpioInstances w\<rparr>"

section \<open>Sequences of operations\<close>

fun isFailure :: "response \<Rightarrow> bool" where
  "isFailure (Failure c e) = True"
| "isFailure (Started i r d) = False"
| "isFailure (Stopped i t r) = False"

text \<open>The number of in-progress sessions of a holder.\<close>

definition activeCount :: "world \<Rightarrow> string \<Rightarrow> nat" where
  "activeCount w h =
    length (filter (\<lambda>t. rfid t = h \<and> status t = InProgress) (transactions w))"

text \<open>
  The states reached from an empty collection of transactions when every start or stop
  request runs to its end before the next one begins. Requests that overlap are the
  subject of the next section.
\<close>

inductive inTurn :: "world \<Rightarrow> bool" where
  initial: "transactions w = [] \<Longrightarrow> inTurn w"
| start: "inTurn w \<Longrightarrow>
     inTurn (snd (startChargingSession w r p ty n dateNow now nowLater))"
| stop: "inTurn w \<Longrightarrow> inTurn (snd (stopChargingSession w i st now))"

section \<open>Overlapping requests\<close>

text \<open>
  Express runs a handler until its next \<^verbatim>\<open>await\<close>; the handlers of other requests run
  in between. A call of \<^verbatim>\<open>startChargingSession\<close> in flight is therefore one of the
  following, named after the store operation it is waiting for, with the local variables
  that are live there. The controller and \<^verbatim>\<open>createTransaction\<close> each hold a reference to
  the student document, made from the same id; the calls carry it once.
\<close>

datatype start_call =
    AwaitStudent string string int string int
  | AwaitActive string string int string int student
  | AwaitStudentTx transactionData string int
  | AwaitAddDoc transactionData string int int transaction
  | AwaitUpdateDoc string int nat int timestamp
  | AwaitUpdatedStudent string int nat
  | Responded response

text \<open>
  The synchronous prefix of the handler: the validation of the request (line 183) and the
  making of the document reference (line 191).
\<close>

definition startCall ::
  "string option \<Rightarrow> int option \<Rightarrow> string option \<Rightarrow> int option \<Rightarrow> start_call" where
  "startCall rfid' pointsToSpend socketType' socketNumber' =
    (case (rfid', pointsToSpend, socketType', socketNumber') of
       (Some r, Some p, Some ty, Some n) \<Rightarrow>
         if r = [] \<or> p = 0 \<or> ty = [] \<or> n = 0 then Responded (Failure 400 MissingFields)
         else
           (case docId r of
              None \<Rightarrow> Responded (Failure 500 InvalidDocumentReference)
            | Some studentRef \<Rightarrow> AwaitStudent r studentRef p ty n)
     | _ \<Rightarrow> Responded (Failure 400 MissingFields))"

text \<open>
  One step: the awaited store operation takes effect on the current state and the handler
  runs on to its next \<^verbatim>\<open>await\<close>; \<open>now\<close> is the clock during the step. The arguments of
  \<^verbatim>\<open>updateDoc\<close> (line 70) are evaluated when \<^verbatim>\<open>addDoc\<close> has returned.
\<close>

fun startStep :: "timestamp \<Rightarrow> world \<Rightarrow> start_call \<Rightarrow> world \<times> start_call" where
  "startStep now w (AwaitStudent r studentRef p ty n) =
    (case students w studentRef of
       None \<Rightarrow> (w, Responded (Failure 404 StudentNotFound))
     | Some studentData \<Rightarrow> (w, AwaitActive r studentRef p ty n studentData))"
| "startStep now w (AwaitActive r studentRef p ty n studentData) =
    (case getActiveTransaction w r of
       Some activeTransaction \<Rightarrow> (w, Responded (Failure 400 ActiveSessionExists))
     | None \<Rightarrow>
         let durationSeconds = p * 120;
             expectedEndTime' = now + durationSeconds * 1000
         in
         (case docId r of
            None \<Rightarrow> (w, Responded (Failure 500 InvalidDocumentReference))
          | Some studentRef' \<Rightarrow>
              (w, AwaitStudentTx
                    \<lparr> td_rfid = r,
                      td_studentName = name studentData,
                      td_email = email studentData,
                      td_pointsToSpend = p,
                      td_socketType = ty,
                      td_socketNumber = n,
                      td_startTime = None,
                      td_expectedEndTime = Some expectedEndTime',
                      td_status = None \<rparr> studentRef' durationSeconds)))"
| "startStep now w (AwaitStudentTx td studentRef durationSeconds) =
    (case students w studentRef of
       None \<Rightarrow> (w, Responded (Failure 500 StudentNotFound))
     | Some studentData \<Rightarrow>
         let currentPoints = pointsOrZero studentData in
         if currentPoints < td_pointsToSpend td
         then (w, Responded (Failure 500 InsufficientPoints))
         else
           let remainingPoints' = currentPoints - td_pointsToSpend td;
               txn = buildTransaction td remainingPoints' now
           in
           if \<not> writable txn then (w, Responded (Failure 500 TimestampOutOfRange))
           else (w, AwaitAddDoc td studentRef durationSeconds remainingPoints' txn))"
| "startStep now w (AwaitAddDoc td studentRef durationSeconds remainingPoints' txn) =
    (w\<lparr>transactions := transactions w @ [txn]\<rparr>,
     AwaitUpdateDoc studentRef durationSeconds (length (transactions w)) remainingPoints' now)"
| "startStep now w
     (AwaitUpdateDoc studentRef durationSeconds transactionId remainingPoints' lastUsed') =
    (case students w studentRef of
       None \<Rightarrow> (w, Responded (Failure 500 DocumentMissing))
     | Some current \<Rightarrow>
         (w\<lparr>students := (students w)(studentRef \<mapsto>
               current\<lparr>points := Some remainingPoints', lastUsed := Some lastUsed'\<rparr>)\<rparr>,
          AwaitUpdatedStudent studentRef durationSeconds transactionId))"
| "startStep now w (AwaitUpdatedStudent studentRef durationSeconds transactionId) =
    (case students w studentRef of
       None \<Rightarrow> (w, Responded (Failure 500 TypeError))
     | Some updatedStudentData \<Rightarrow>
         (w, Responded (Started transactionId (points updatedStudentData) durationSeconds)))"
| "startStep now w (Responded resp) = (w, Responded resp)"

text \<open>
  Several start calls in flight over one store; a schedule names, step by step, the call
  that runs next and the clock at that moment.
\<close>

fun stepCall :: "nat \<times> timestamp \<Rightarrow> world \<times> start_call list \<Rightarrow> world \<times> start_call list" where
  "stepCall (k, now) (w, calls) =
    (if k < length calls
     then (case startStep now w (calls ! k) of (w', c') \<Rightarrow> (w', calls[k := c']))
     else (w, calls))"

fun runSchedule ::
  "(nat \<times> timestamp) list \<Rightarrow> world \<times> start_call list \<Rightarrow> world \<times> start_call list" where
  "runSchedule [] cfg = cfg"
| "runSchedule (s # sched) cfg = runSchedule sched (stepCall s cfg)"

text \<open>
  A call of \<^verbatim>\<open>stopChargingSession\<close> in flight, in the same way: waiting for the
  transaction (line 91), for the student to refund (line 123), for the write of the
  refunded balance (line 127), for the write of the transaction (line 138), or for the
  student read of the controller (line 270).
\<close>

datatype stop_call =
    AwaitTransaction nat txn_status
  | AwaitRefundStudent nat transaction "transaction \<Rightarrow> transaction" int int string
  | AwaitRefundUpdate nat transaction "transaction \<Rightarrow> transaction" int int string int
  | AwaitTransactionUpdate nat transaction "transaction \<Rightarrow> transaction"
  | AwaitStoppedStudent nat transaction string
  | StopResponded response

definition stopCall :: "nat option \<Rightarrow> string option \<Rightarrow> stop_call" where
  "stopCall transactionId' status' =
    (case transactionId' of
       None \<Rightarrow> StopResponded (Failure 400 TransactionIdRequired)
     | Some transactionId \<Rightarrow>
         AwaitTransaction transactionId
           (if status' = Some ''cancelled'' then Cancelled else Completed))"

fun stopStep :: "timestamp \<Rightarrow> world \<Rightarrow> stop_call \<Rightarrow> world \<times> stop_call" where
  "stopStep now w (AwaitTransaction transactionId st) =
    (case getTransactionDoc w transactionId of
       None \<Rightarrow> (w, StopResponded (Failure 500 TransactionNotFound))
     | Some txn \<Rightarrow>
         let actualEndTime' = now;
             startTimeSeconds = seconds (startTime txn);
             endTimeSeconds = seconds actualEndTime';
             durationSeconds = endTimeSeconds - startTimeSeconds;
             updates = (\<lambda>t. t\<lparr>status := st,
                               actualEndTime := Some actualEndTime',
                               duration := Some durationSeconds,
                               updatedAt := now\<rparr>)
         in
         if st = Cancelled \<and> status txn = InProgress then
           let expectedDuration = pointsUsed txn * 120;
               usedDuration = min durationSeconds expectedDuration;
               usedPoints = \<lceil>real_of_int usedDuration / 120\<rceil>;
               refundPoints = pointsUsed txn - usedPoints
           in
           if refundPoints > 0 then
             (case docId (rfid txn) of
                None \<Rightarrow> (w, StopResponded (Failure 500 InvalidDocumentReference))
              | Some studentRef \<Rightarrow>
                  (w, AwaitRefundStudent transactionId txn updates refundPoints usedPoints
                        studentRef))
           else (w, AwaitTransactionUpdate transactionId txn updates)
         else (w, AwaitTransactionUpdate transactionId txn updates))"
| "stopStep now w
     (AwaitRefundStudent transactionId txn updates refundPoints usedPoints studentRef) =
    (case students w studentRef of
       Some studentDoc \<Rightarrow>
         (w, AwaitRefundUpdate transactionId txn updates refundPoints usedPoints studentRef
               (pointsOrZero studentDoc))
     | None \<Rightarrow> (w, AwaitTransactionUpdate transactionId txn updates))"
| "stopStep now w
     (AwaitRefundUpdate transactionId txn updates refundPoints usedPoints studentRef
        currentPoints) =
    (case students w studentRef of
       None \<Rightarrow> (w, StopResponded (Failure 500 DocumentMissing))
     | Some current \<Rightarrow>
         (w\<lparr>students := (students w)(studentRef \<mapsto>
               current\<lparr>points := Some (currentPoints + refundPoints)\<rparr>)\<rparr>,
          AwaitTransactionUpdate transactionId txn
            (\<lambda>t. (updates t)\<lparr>pointsRefunded := Some refundPoints,
                              actualPointsUsed := Some usedPoints,
                              remainingPoints := currentPoints + refundPoints\<rparr>)))"
| "stopStep now w (AwaitTransactionUpdate transactionId txn updates) =
    (if transactionId < length (transactions w) then
       (case docId (rfid (updates txn)) of
          None \<Rightarrow>
            (w\<lparr>transactions :=
                 (transactions w)[transactionId := updates (transactions w ! transactionId)]\<rparr>,
             StopResponded (Failure 500 InvalidDocumentReference))
        | Some studentRef \<Rightarrow>
            (w\<lparr>transactions :=
                 (transactions w)[transactionId := updates (transactions w ! transactionId)]\<rparr>,
             AwaitStoppedStudent transactionId (updates txn) studentRef))
     else (w, StopResponded (Failure 500 DocumentMissing)))"
| "stopStep now w (AwaitStoppedStudent transactionId updatedTransaction studentRef) =
    (case students w studentRef of
       None \<Rightarrow> (w, StopResponded (Failure 500 TypeError))
     | Some studentData \<Rightarrow>
         (w, StopResponded (Stopped transactionId updatedTransaction (points studentData))))"
| "stopStep now w (StopResponded resp) = (w, StopResponded resp)"

text \<open>
  The program at large: any number of start and stop calls in flight, each new request
  joining the calls, each step taken by any one of them. \<open>reachable\<close> are the states of
  the store and the pins that this can lead to from an empty collection of transactions.
\<close>

datatype call = StartCall start_call | StopCall stop_call

fun callStep :: "timestamp \<Rightarrow> world \<Rightarrow> call \<Rightarrow> world \<times> call" where
  "callStep now w (StartCall c) = (case startStep now w c of (w', c') \<Rightarrow> (w', StartCall c'))"
| "callStep now w (StopCall c) = (case stopStep now w c of (w', c') \<Rightarrow> (w', StopCall c'))"

inductive running :: "world \<Rightarrow> call list \<Rightarrow> bool" where
  boot: "transactions w = [] \<Longrightarrow> running w []"
| requestStart: "running w cs \<Longrightarrow> running w (cs @ [StartCall (startCall r p ty n)])"
| requestStop: "running w cs \<Longrightarrow> running w (cs @ [StopCall (stopCall i st)])"
| step: "running w cs \<Longrightarrow> k < length cs \<Longrightarrow> callStep now w (cs ! k) = (w', c') \<Longrightarrow>
     running w' (cs[k := c'])"

definition reachable :: "world \<Rightarrow> bool" where
  "reachable w = (\<exists>cs. running w cs)"

text \<open>
  What holds of the calls in flight: a call that has built its transaction record has
  done so for a holder whose student document it has read, and the field changes a stop
  call is about to write leave the holder of a transaction alone.
\<close>

definition hasAccount :: "world \<Rightarrow> string \<Rightarrow> bool" where
  "hasAccount w r = (case docId r of None \<Rightarrow> False | Some k \<Rightarrow> students w k \<noteq> None)"

fun startCallOK :: "world \<Rightarrow> start_call \<Rightarrow> bool" where
  "startCallOK w (AwaitStudentTx td studentRef durationSeconds) =
     (docId (td_rfid td) = Some studentRef)"
| "startCallOK w (AwaitAddDoc td studentRef durationSeconds remainingPoints' txn) =
     (rfid txn = td_rfid td \<and> docId (td_rfid td) = Some studentRef
      \<and> students w studentRef \<noteq> None)"
| "startCallOK w c = True"

fun stopCallOK :: "stop_call \<Rightarrow> bool" where
  "stopCallOK (AwaitRefundStudent i txn updates refundPoints usedPoints studentRef) =
     (\<forall>t. rfid (updates t) = rfid t)"
| "stopCallOK (AwaitRefundUpdate i txn updates refundPoints usedPoints studentRef cur) =
     (\<forall>t. rfid (updates t) = rfid t)"
| "stopCallOK (AwaitTransactionUpdate i txn updates) = (\<forall>t. rfid (updates t) = rfid t)"
| "stopCallOK c = True"

fun callOK :: "world \<Rightarrow> call \<Rightarrow> bool" where
  "callOK w (StartCall c) = startCallOK w c"
| "callOK w (StopCall c) = stopCallOK c"

section \<open>Sample states\<close>

definition alice :: student where
  "alice = \<lparr> name = ''Alice'', email = ''alice@example.org'', points = Some 100, lastUsed = None \<rparr>"

definition noPoints :: student where
  "noPoints = \<lparr> name = ''Bo'', email = ''bo@example.org'', points = None, lastUsed = None \<rparr>"

text \<open>One registered holder with 100 points, no transaction, no pin in use.\<close>

definition freshWorld :: world where
  "freshWorld = \<lparr> students = [''A1'' \<mapsto> alice], transactions = [],
                   gpioInstances = Map.empty, constructed = [] \<rparr>"

text \<open>The state after holder A1 has started a 10-point lease on socket 1 at time 0.\<close>

definition leaseWorld :: world where
  "leaseWorld =
    snd (startChargingSession freshWorld (Some ''A1'') (Some 10) (Some ''Own Charger'') (Some 1)
           0 0 0)"

text \<open>The same lease, cancelled by its holder 125.4 seconds after its start.\<close>

definition cancelledWorld :: world where
  "cancelledWorld = snd (stopChargingSession leaseWorld (Some 0) (Some ''cancelled'') 125400)"

definition cancelledTxn :: transaction where
  "cancelledTxn = (buildTransaction
        \<lparr> td_rfid = ''A1'', td_studentName = ''Alice'', td_email = ''alice@example.org'',
          td_pointsToSpend = 10, td_socketType = ''Own Charger'', td_socketNumber = 1,
          td_startTime = None, td_expectedEndTime = Some 1200000, td_status = None \<rparr> 90 0)
      \<lparr> status := Cancelled, actualEndTime := Some 125400, duration := Some 125,
        updatedAt := 125400, pointsRefunded := Some 8, actualPointsUsed := Some 2,
        remainingPoints := 98 \<rparr>"

text \<open>The lease of A1 in progress, with socket 1 switched on.\<close>

definition relayWorld :: world where
  "relayWorld = (case turnOnSocket leaseWorld 1 of Inr w \<Rightarrow> w | Inl e \<Rightarrow> leaseWorld)"

text \<open>
  A holder whose document has no \<^verbatim>\<open>points\<close> field, without a session and with a 10-point
  session in progress since time 0.
\<close>

definition bo_txn :: transaction where
  "bo_txn = buildTransaction
        \<lparr> td_rfid = ''B2'', td_studentName = ''Bo'', td_email = ''bo@example.org'',
          td_pointsToSpend = 10, td_socketType = ''Own Charger'', td_socketNumber = 2,
          td_startTime = None, td_expectedEndTime = Some 1200000, td_status = None \<rparr> 0 0"

definition noPointsWorld :: world where
  "noPointsWorld = \<lparr> students = [''B2'' \<mapsto> noPoints], transactions = [],
                   gpioInstances = Map.empty, constructed = [] \<rparr>"

definition noPointsLeaseWorld :: world where
  "noPointsLeaseWorld = noPointsWorld\<lparr>transactions := [bo_txn]\<rparr>"

text \<open>
  Two requests of holder A1 for 5 points each, and two ways their steps can fall: turn by
  turn, and the second request running from start to end after the first one has passed
  its check for an active session.
\<close>

definition a1Call :: start_call where
  "a1Call = startCall (Some ''A1'') (Some 5) (Some ''Own Charger'') (Some 1)"

definition alternating :: "(nat \<times> timestamp) list" where
  "alternating = [(0, 10), (1, 11), (0, 20), (1, 21), (0, 30), (1, 31),
                  (0, 40), (1, 41), (0, 50), (1, 51), (0, 60), (1, 61)]"

definition overtaking :: "(nat \<times> timestamp) list" where
  "overtaking = [(0, 10), (0, 20), (1, 21), (1, 22), (1, 23), (1, 24), (1, 25), (1, 26),
                 (0, 30), (0, 40), (0, 50), (0, 60)]"

text \<open>
  Holder A1 asks for socket 1 and, before that request has finished, for socket 2.
\<close>

definition a1SecondCall :: start_call where
  "a1SecondCall = startCall (Some ''A1'') (Some 3) (Some ''Universal Charger'') (Some 2)"

text \<open>A holder with a balance of three thousand million points.\<close>

definition carol :: student where
  "carol = \<lparr> name = ''Carol'', email = ''carol@example.org'', points = Some 3000000000,
             lastUsed = None \<rparr>"

definition richWorld :: world where
  "richWorld = \<lparr> students = [''C3'' \<mapsto> carol], transactions = [],
                  gpioInstances = Map.empty, constructed = [] \<rparr>"

section \<open>Document references\<close>

text \<open>A non-empty id without a slash refers to the document of that name.\<close>

lemma splitSlash_plain: "CHR ''/'' \<notin> set r \<Longrightarrow> splitSlash r = [r]"
  by (induction r) auto

lemma doubleSlash_plain: "CHR ''/'' \<notin> set r \<Longrightarrow> \<not> doubleSlash r"
  by (induction r rule: doubleSlash.induct) auto

lemma docId_plain: "CHR ''/'' \<notin> set r \<Longrightarrow> r \<noteq> [] \<Longrightarrow> docId r = Some r"
  by (simp add: docId_def segments_def splitSlash_plain doubleSlash_plain)

lemma docId_A1: "docId ''A1'' = Some ''A1''"
  by (simp add: docId_def segments_def)

lemma docId_B2: "docId ''B2'' = Some ''B2''"
  by (simp add: docId_def segments_def)

lemma docId_slash: "docId ''A/1'' = None"
  by (simp add: docId_def segments_def)

lemma docId_C3: "docId ''C3'' = Some ''C3''"
  by (simp add: docId_def segments_def)

section \<open>Refund on cancellation\<close>

lemma used_points_le:
  "0 \<le> p \<Longrightarrow> \<lceil>real_of_int (min e (p * 120)) / 120\<rceil> \<le> p"
proof -
  have "real_of_int (min e (p * 120)) \<le> real_of_int (p * 120)" by simp
  then have "real_of_int (min e (p * 120)) / 120 \<le> real_of_int p" by simp
  then show ?thesis by (simp add: ceiling_le_iff)
qed

lemma used_points_zero: "0 \<le> p \<Longrightarrow> \<lceil>real_of_int (min 0 (p * 120)) / 120\<rceil> = 0"
  by (simp add: min_def)

lemma used_points_full: "p * 120 \<le> e \<Longrightarrow> \<lceil>real_of_int (min e (p * 120)) / 120\<rceil> = p"
  by (simp add: min_def)

lemma leaseWorld_transactions:
  "transactions leaseWorld =
     [buildTransaction
        \<lparr> td_rfid = ''A1'', td_studentName = ''Alice'', td_email = ''alice@example.org'',
          td_pointsToSpend = 10, td_socketType = ''Own Charger'', td_socketNumber = 1,
          td_startTime = None, td_expectedEndTime = Some 1200000, td_status = None \<rparr> 90 0]"
  by (simp add: leaseWorld_def startChargingSession_def freshWorld_def alice_def docId_A1
      getActiveTransaction_def activeDocs_def createTransaction_def pointsOrZero_def Let_def
      writable_def buildTransaction_def timestampInRange_def seconds_def)

lemma leaseWorld_students:
  "students leaseWorld ''A1'' = Some (alice\<lparr>points := Some 90, lastUsed := Some 0\<rparr>)"
  by (simp add: leaseWorld_def startChargingSession_def freshWorld_def alice_def docId_A1
      getActiveTransaction_def activeDocs_def createTransaction_def pointsOrZero_def Let_def
      writable_def buildTransaction_def timestampInRange_def seconds_def)

text \<open>
  C1. Cancelling an in-progress lease of \<open>p > 0\<close> points after \<open>e \<ge> 0\<close> elapsed seconds,
  for a holder whose account exists: the account balance grows by exactly
  \<open>p - ceil (min e (p * 120) / 120)\<close>, the same number is recorded as \<open>pointsRefunded\<close>
  when it is positive, and it is never negative. It is \<open>p\<close> at \<open>e = 0\<close>, 8 for
  \<open>p = 10\<close> and \<open>e = 125\<close>, and 0 from \<open>e = p * 120\<close> on. The account is the student
  document that the holder id of the session refers to.
\<close>

theorem cancel_refund:
  assumes doc: "getTransactionDoc w i = Some txn"
    and st: "status txn = InProgress"
    and p: "pointsUsed txn = p" "0 < p"
    and e: "seconds now - seconds (startTime txn) = e" "0 \<le> e"
    and acct: "docId (rfid txn) = Some k" "students w k = Some s"
  shows "(case completeTransaction w i Cancelled now of
           (res, w') \<Rightarrow>
             map_option pointsOrZero (students w' k) =
               Some (pointsOrZero s + (p - \<lceil>real_of_int (min e (p * 120)) / 120\<rceil>))
           \<and> (\<exists>t'. res = Inr (i, t') \<and>
                 (0 < p - \<lceil>real_of_int (min e (p * 120)) / 120\<rceil> \<longrightarrow>
                  pointsRefunded t' = Some (p - \<lceil>real_of_int (min e (p * 120)) / 120\<rceil>))))
         \<and> 0 \<le> p - \<lceil>real_of_int (min e (p * 120)) / 120\<rceil>
         \<and> (e = 0 \<longrightarrow> p - \<lceil>real_of_int (min e (p * 120)) / 120\<rceil> = p)
         \<and> (p = 10 \<and> e = 125 \<longrightarrow> p - \<lceil>real_of_int (min e (p * 120)) / 120\<rceil> = 8)
         \<and> (p * 120 \<le> e \<longrightarrow> p - \<lceil>real_of_int (min e (p * 120)) / 120\<rceil> = 0)"
proof -
  let ?r = "p - \<lceil>real_of_int (min e (p * 120)) / 120\<rceil>"
  have nn: "0 \<le> ?r" using used_points_le [of p e] p by simp
  have z: "e = 0 \<longrightarrow> ?r = p" using used_points_zero [of p] p by auto
  have f: "p * 120 \<le> e \<longrightarrow> ?r = 0" using used_points_full [of p e] by auto
  have ex: "p = 10 \<and> e = 125 \<longrightarrow> ?r = 8" by auto
  have run: "(case completeTransaction w i Cancelled now of
           (res, w') \<Rightarrow>
             map_option pointsOrZero (students w' k) = Some (pointsOrZero s + ?r)
           \<and> (\<exists>t'. res = Inr (i, t') \<and> (0 < ?r \<longrightarrow> pointsRefunded t' = Some ?r)))"
  proof (cases "0 < ?r")
    case True
    then show ?thesis using doc st p e acct
      by (simp add: completeTransaction_def Let_def finishTransaction_def pointsOrZero_def)
  next
    case False
    then have "?r = 0" using nn by simp
    then show ?thesis using doc st p e acct
      by (simp add: completeTransaction_def Let_def finishTransaction_def pointsOrZero_def)
  qed
  show ?thesis using run nn z f ex by blast
qed

text \<open>
  The 10-point lease of holder A1, started at time 0 and cancelled at 125.4 seconds:
  the balance goes from 90 to 98.
\<close>

theorem cancel_refund_witness:
  "map_option pointsOrZero
     (students (snd (completeTransaction leaseWorld 0 Cancelled 125400)) ''A1'') = Some 98"
proof -
  let ?txn = "buildTransaction
        \<lparr> td_rfid = ''A1'', td_studentName = ''Alice'', td_email = ''alice@example.org'',
          td_pointsToSpend = 10, td_socketType = ''Own Charger'', td_socketNumber = 1,
          td_startTime = None, td_expectedEndTime = Some 1200000, td_status = None \<rparr> 90 0"
  have doc: "getTransactionDoc leaseWorld 0 = Some ?txn"
    by (simp add: getTransactionDoc_def leaseWorld_transactions)
  have st: "status ?txn = InProgress" by (simp add: buildTransaction_def)
  have p: "pointsUsed ?txn = 10" "0 < (10::int)" by (simp_all add: buildTransaction_def)
  have e: "seconds 125400 - seconds (startTime ?txn) = 125" "0 \<le> (125::int)"
    by (simp_all add: buildTransaction_def seconds_def)
  have acct: "docId (rfid ?txn) = Some ''A1''"
    "students leaseWorld ''A1'' = Some (alice\<lparr>points := Some 90, lastUsed := Some 0\<rparr>)"
    by (simp_all add: buildTransaction_def leaseWorld_students docId_A1)
  show ?thesis
    using cancel_refund [OF doc st p e acct]
    by (simp add: pointsOrZero_def split: prod.splits)
qed

section \<open>Requests that take turns\<close>

text \<open>
  As long as no two requests overlap, a holder id has at most one session in progress.
\<close>

lemma filter_enumerate_snd:
  "map snd (filter (\<lambda>(i, t). P t) (enumerate n xs)) = filter P xs"
  by (induction xs arbitrary: n) auto

lemma activeDocs_snd:
  "map snd (activeDocs w r) = filter (\<lambda>t. rfid t = r \<and> status t = InProgress) (transactions w)"
  unfolding activeDocs_def by (rule filter_enumerate_snd)

lemma getActive_None_iff:
  "getActiveTransaction w r = None \<longleftrightarrow>
     filter (\<lambda>t. rfid t = r \<and> status t = InProgress) (transactions w) = []"
proof -
  have "getActiveTransaction w r = None \<longleftrightarrow> activeDocs w r = []"
    by (simp add: getActiveTransaction_def split: list.splits)
  also have "\<dots> \<longleftrightarrow> map snd (activeDocs w r) = []" by simp
  finally show ?thesis by (simp only: activeDocs_snd)
qed

lemma getActive_None_count: "getActiveTransaction w r = None \<longleftrightarrow> activeCount w r = 0"
  by (simp add: getActive_None_iff activeCount_def)

lemma getActive_Some_count: "getActiveTransaction w r = Some a \<Longrightarrow> 0 < activeCount w r"
  using getActive_None_count [of w r] by auto

lemma filter_update_le:
  "\<not> P v \<Longrightarrow> length (filter P (xs[i := v])) \<le> length (filter P xs)"
proof (induction xs arbitrary: i)
  case Nil
  then show ?case by simp
next
  case (Cons x xs)
  then show ?case by (cases i) (auto intro: le_SucI)
qed

lemma transactions_create:
  "transactions (snd (createTransaction w td now nowLater)) = transactions w
   \<or> (\<exists>rem. transactions (snd (createTransaction w td now nowLater)) =
          transactions w @ [buildTransaction td rem now])"
  by (auto simp add: createTransaction_def Let_def split: option.splits)

lemma transactions_complete:
  "\<exists>u. transactions (snd (completeTransaction w i st now)) = transactions w
       \<or> (transactions (snd (completeTransaction w i st now)) = (transactions w)[i := u]
          \<and> i < length (transactions w) \<and> status u = st \<and> rfid u = rfid (transactions w ! i))"
  by (auto simp add: completeTransaction_def Let_def finishTransaction_def getTransactionDoc_def
        split: option.splits if_splits)

lemma start_cases:
  "snd (startChargingSession w r p ty n dateNow now nowLater) = w
   \<or> (\<exists>td. getActiveTransaction w (td_rfid td) = None \<and> td_status td = None
        \<and> snd (startChargingSession w r p ty n dateNow now nowLater) =
            snd (createTransaction w td now nowLater))"
proof (cases "\<exists>r' p' ty' n' k s. r = Some r' \<and> p = Some p' \<and> ty = Some ty' \<and> n = Some n'
                \<and> r' \<noteq> [] \<and> p' \<noteq> 0 \<and> ty' \<noteq> [] \<and> n' \<noteq> 0 \<and> docId r' = Some k
                \<and> students w k = Some s \<and> getActiveTransaction w r' = None")
  case True
  then obtain r' p' ty' n' k s where h: "r = Some r'" "p = Some p'" "ty = Some ty'" "n = Some n'"
      "r' \<noteq> []" "p' \<noteq> 0" "ty' \<noteq> []" "n' \<noteq> 0" "docId r' = Some k"
      "students w k = Some s" "getActiveTransaction w r' = None"
    by blast
  let ?td = "\<lparr> td_rfid = r', td_studentName = name s, td_email = email s,
                td_pointsToSpend = p', td_socketType = ty', td_socketNumber = n',
                td_startTime = None,
                td_expectedEndTime = Some (dateNow + p' * 120 * 1000),
                td_status = None \<rparr>"
  have "snd (startChargingSession w r p ty n dateNow now nowLater) =
          snd (createTransaction w ?td now nowLater)"
    using h by (simp add: startChargingSession_def Let_def split: prod.splits sum.splits option.splits)
  moreover have "getActiveTransaction w (td_rfid ?td) = None" "td_status ?td = None"
    using h by simp_all
  ultimately show ?thesis by blast
next
  case False
  then have "snd (startChargingSession w r p ty n dateNow now nowLater) = w"
    by (auto simp add: startChargingSession_def Let_def split: option.splits)
  then show ?thesis by simp
qed

lemma activeCount_create:
  assumes "\<forall>h. activeCount w h \<le> 1"
    and "getActiveTransaction w (td_rfid td) = None" and "td_status td = None"
  shows "activeCount (snd (createTransaction w td now nowLater)) h \<le> 1"
proof -
  from assms(2) have none: "activeCount w (td_rfid td) = 0"
    by (simp add: getActive_None_iff activeCount_def)
  from transactions_create [of w td now nowLater] show ?thesis
  proof (elim disjE exE)
    assume "transactions (snd (createTransaction w td now nowLater)) = transactions w"
    then show ?thesis using assms(1) [rule_format, of h] by (simp add: activeCount_def)
  next
    fix rem
    assume eq: "transactions (snd (createTransaction w td now nowLater)) =
          transactions w @ [buildTransaction td rem now]"
    show ?thesis
    proof (cases "h = td_rfid td")
      case True
      then show ?thesis using none assms(3) eq
        by (simp add: activeCount_def buildTransaction_def)
    next
      case False
      then show ?thesis using assms(1) [rule_format, of h] eq
        by (simp add: activeCount_def buildTransaction_def)
    qed
  qed
qed

lemma activeCount_start:
  assumes "\<forall>h. activeCount w h \<le> 1"
  shows "activeCount (snd (startChargingSession w r p ty n dateNow now nowLater)) h \<le> 1"
  using start_cases [of w r p ty n dateNow now nowLater]
proof (elim disjE exE conjE)
  assume "snd (startChargingSession w r p ty n dateNow now nowLater) = w"
  then show ?thesis using assms by simp
next
  fix td
  assume "getActiveTransaction w (td_rfid td) = None" "td_status td = None"
    and eq: "snd (startChargingSession w r p ty n dateNow now nowLater) =
            snd (createTransaction w td now nowLater)"
  then show ?thesis unfolding eq by (intro activeCount_create assms)
qed

lemma stop_world:
  "snd (stopChargingSession w i st now) = w
   \<or> (\<exists>k. i = Some k \<and> snd (stopChargingSession w i st now) =
         snd (completeTransaction w k (if st = Some ''cancelled'' then Cancelled else Completed) now))"
  by (cases i) (simp_all add: stopChargingSession_def Let_def split: prod.splits sum.splits option.splits)

lemma transactions_stop:
  "transactions (snd (stopChargingSession w i st now)) = transactions w
   \<or> (\<exists>k u. transactions (snd (stopChargingSession w i st now)) = (transactions w)[k := u]
          \<and> status u \<noteq> InProgress)"
  using stop_world [of w i st now]
proof (elim disjE exE conjE)
  assume "snd (stopChargingSession w i st now) = w"
  then show ?thesis by simp
next
  fix k
  let ?fs = "if st = Some ''cancelled'' then Cancelled else Completed"
  assume eq: "snd (stopChargingSession w i st now) = snd (completeTransaction w k ?fs now)"
  obtain u where "transactions (snd (completeTransaction w k ?fs now)) = transactions w
       \<or> (transactions (snd (completeTransaction w k ?fs now)) = (transactions w)[k := u]
          \<and> k < length (transactions w) \<and> status u = ?fs \<and> rfid u = rfid (transactions w ! k))"
    using transactions_complete [of w k ?fs now] by blast
  then show ?thesis unfolding eq by (auto split: if_splits)
qed

lemma activeCount_stop:
  assumes "\<forall>h. activeCount w h \<le> 1"
  shows "activeCount (snd (stopChargingSession w i st now)) h \<le> 1"
proof -
  have "activeCount (snd (stopChargingSession w i st now)) h \<le> activeCount w h"
    using transactions_stop [of w i st now]
    by (auto simp add: activeCount_def intro: filter_update_le)
  then show ?thesis using assms [rule_format, of h] by simp
qed

lemma inTurn_one_active:
  "inTurn w \<Longrightarrow> activeCount w h \<le> 1"
proof (induction arbitrary: h rule: inTurn.induct)
  case (initial w)
  then show ?case by (simp add: activeCount_def)
next
  case (start w r p ty n dateNow now nowLater)
  then show ?case by (intro activeCount_start) blast
next
  case (stop w i st now)
  then show ?case by (intro activeCount_stop) blast
qed

section \<open>Requests that overlap\<close>

text \<open>
  Run alone, the steps of a call give what the uninterrupted handler gives, so the states
  reached by requests that take turns are among the reachable ones.
\<close>

lemma start_steps_atomic:
  "runSchedule [(0, t1), (0, dateNow), (0, now), (0, nowLater), (0, t5), (0, t6)]
      (w, [startCall r p ty n]) =
   (snd (startChargingSession w r p ty n dateNow now nowLater),
    [Responded (fst (startChargingSession w r p ty n dateNow now nowLater))])"
  by (auto simp add: startCall_def startChargingSession_def createTransaction_def Let_def
      split: option.splits)

lemma start_steps_alone:
  "foldl (\<lambda>(w, c) t. callStep t w c) (w, StartCall (startCall r p ty n))
      [t1, dateNow, now, nowLater, t5, t6] =
   (snd (startChargingSession w r p ty n dateNow now nowLater),
    StartCall (Responded (fst (startChargingSession w r p ty n dateNow now nowLater))))"
  by (auto simp add: startCall_def startChargingSession_def createTransaction_def Let_def
      split: option.splits)

lemma stop_steps_alone:
  "foldl (\<lambda>(w, c) t. callStep t w c) (w, StopCall (stopCall i st)) [now, t2, t3, t4, t5] =
   (snd (stopChargingSession w i st now),
    StopCall (StopResponded (fst (stopChargingSession w i st now))))"
  by (auto simp add: stopCall_def stopChargingSession_def completeTransaction_def Let_def
      finishTransaction_def getTransactionDoc_def split: option.splits)


lemma running_step_last:
  assumes "running w (cs @ [c])" and "callStep now w c = (w', c')"
  shows "running w' (cs @ [c'])"
proof -
  have "running w' ((cs @ [c])[length cs := c'])"
    using assms by (intro running.step [where now = now]) simp_all
  then show ?thesis by simp
qed

lemma running_steps_last:
  "running w (cs @ [c]) \<Longrightarrow>
     running (fst (foldl (\<lambda>(w, c) t. callStep t w c) (w, c) ts))
             (cs @ [snd (foldl (\<lambda>(w, c) t. callStep t w c) (w, c) ts)])"
proof (induction ts arbitrary: w c)
  case Nil
  then show ?case by simp
next
  case (Cons t ts)
  obtain w' c' where st: "callStep t w c = (w', c')" by (cases "callStep t w c")
  have "running w' (cs @ [c'])" using Cons.prems st by (rule running_step_last)
  then show ?case using Cons.IH [of w' c'] st by simp
qed

lemma running_forget: "running w cs \<Longrightarrow> reachable w"
  unfolding reachable_def by blast

lemma inTurn_reachable: "inTurn w \<Longrightarrow> reachable w"
proof (induction rule: inTurn.induct)
  case (initial w)
  then show ?case using running.boot running_forget by blast
next
  case (start w r p ty n dateNow now nowLater)
  then obtain cs where "running w cs" unfolding reachable_def by blast
  then have "running w (cs @ [StartCall (startCall r p ty n)])" by (rule running.requestStart)
  from running_steps_last [OF this, of "[0, dateNow, now, nowLater, 0, 0]"]
  show ?case unfolding start_steps_alone by (auto intro: running_forget)
next
  case (stop w i st now)
  then obtain cs where "running w cs" unfolding reachable_def by blast
  then have "running w (cs @ [StopCall (stopCall i st)])" by (rule running.requestStop)
  from running_steps_last [OF this, of "[now, 0, 0, 0, 0]"]
  show ?case unfolding stop_steps_alone by (auto intro: running_forget)
qed

lemma running_stepCall:
  assumes "running w (map StartCall as)"
  shows "running (fst (stepCall s (w, as))) (map StartCall (snd (stepCall s (w, as))))"
proof (cases s)
  case (Pair k now)
  show ?thesis
  proof (cases "k < length as")
    case True
    obtain w' c' where st: "startStep now w (as ! k) = (w', c')" by (cases "startStep now w (as ! k)")
    have "callStep now w (map StartCall as ! k) = (w', StartCall c')"
      using True st by simp
    then have "running w' ((map StartCall as)[k := StartCall c'])"
      using assms True by (intro running.step [where now = now]) simp_all
    then show ?thesis using Pair True st by (simp add: map_update)
  next
    case False
    then show ?thesis using Pair assms by simp
  qed
qed

lemma running_runSchedule:
  "running (fst cfg) (map StartCall (snd cfg)) \<Longrightarrow>
     running (fst (runSchedule sched cfg)) (map StartCall (snd (runSchedule sched cfg)))"
proof (induction sched arbitrary: cfg)
  case Nil
  then show ?case by simp
next
  case (Cons s sched)
  have "running (fst (stepCall s cfg)) (map StartCall (snd (stepCall s cfg)))"
    using Cons.prems running_stepCall [of "fst cfg" "snd cfg" s] by simp
  then show ?case using Cons.IH by simp
qed

text \<open>
  In every reachable state the holder id of each session refers to an existing student
  document, so the account to credit exists when a session is stopped.
\<close>

lemma startStep_students:
  "startStep now w c = (w', c') \<Longrightarrow> students w k \<noteq> None \<Longrightarrow> students w' k \<noteq> None"
  by (cases c) (auto simp add: Let_def split: option.splits if_splits)

lemma stopStep_students:
  "stopStep now w c = (w', c') \<Longrightarrow> students w k \<noteq> None \<Longrightarrow> students w' k \<noteq> None"
  by (cases c) (auto simp add: Let_def split: option.splits if_splits)

lemma callStep_students:
  "callStep now w c = (w', c') \<Longrightarrow> students w k \<noteq> None \<Longrightarrow> students w' k \<noteq> None"
  by (cases c) (auto split: prod.splits dest: startStep_students stopStep_students)

lemma hasAccount_step:
  "callStep now w c = (w', c') \<Longrightarrow> hasAccount w r \<Longrightarrow> hasAccount w' r"
  by (auto simp add: hasAccount_def split: option.splits dest: callStep_students)

lemma callOK_step_other:
  "callStep now w c = (w', c') \<Longrightarrow> callOK w d \<Longrightarrow> callOK w' d"
proof (cases d)
  case (StartCall sc)
  assume a: "callStep now w c = (w', c')" "callOK w d"
  show ?thesis using StartCall a
    by (cases sc) (auto dest: callStep_students)
next
  case (StopCall sc)
  assume "callOK w d"
  then show ?thesis using StopCall by simp
qed

lemma startStep_OK:
  "startStep now w c = (w', c') \<Longrightarrow> startCallOK w c \<Longrightarrow> startCallOK w' c'"
  by (cases c) (auto simp add: Let_def buildTransaction_def split: option.splits if_splits)

lemma stopStep_OK:
  "stopStep now w c = (w', c') \<Longrightarrow> stopCallOK c \<Longrightarrow> stopCallOK c'"
  by (cases c) (auto simp add: Let_def split: option.splits if_splits)

lemma callStep_OK:
  "callStep now w c = (w', c') \<Longrightarrow> callOK w c \<Longrightarrow> callOK w' c'"
  by (cases c) (auto split: prod.splits dest: startStep_OK stopStep_OK)

lemma startStep_transactions:
  "startStep now w c = (w', c') \<Longrightarrow> startCallOK w c \<Longrightarrow> t \<in> set (transactions w') \<Longrightarrow>
     t \<in> set (transactions w) \<or> hasAccount w (rfid t)"
  by (cases c) (auto simp add: Let_def hasAccount_def split: option.splits if_splits)

lemma stopStep_transactions:
  assumes "stopStep now w c = (w', c')" and "stopCallOK c" and "t \<in> set (transactions w')"
  shows "\<exists>u \<in> set (transactions w). rfid t = rfid u"
proof (cases c)
  case (AwaitTransactionUpdate i txn updates)
  show ?thesis
  proof (cases "i < length (transactions w)")
    case True
    then have w': "transactions w' = (transactions w)[i := updates (transactions w ! i)]"
      using assms(1) AwaitTransactionUpdate by (auto split: option.splits)
    have keep: "rfid (updates (transactions w ! i)) = rfid (transactions w ! i)"
      using assms(2) AwaitTransactionUpdate by simp
    from assms(3) w' have "t = updates (transactions w ! i) \<or> t \<in> set (transactions w)"
      using set_update_subset_insert [of "transactions w" i "updates (transactions w ! i)"] by auto
    then show ?thesis using keep nth_mem [OF True] by auto
  next
    case False
    then show ?thesis using assms(1,3) AwaitTransactionUpdate by auto
  qed
qed (use assms in \<open>auto simp add: Let_def split: option.splits if_splits\<close>)

lemma callStep_transactions:
  assumes "callStep now w c = (w', c')" and "callOK w c"
    and "\<forall>t \<in> set (transactions w). hasAccount w (rfid t)"
  shows "\<forall>t \<in> set (transactions w'). hasAccount w' (rfid t)"
proof
  fix t
  assume t: "t \<in> set (transactions w')"
  have "hasAccount w (rfid t)"
  proof (cases c)
    case (StartCall sc)
    then obtain sc' where "startStep now w sc = (w', sc')"
      using assms(1) by (auto split: prod.splits)
    from startStep_transactions [OF this _ t] show ?thesis
      using assms(2,3) StartCall by auto
  next
    case (StopCall sc)
    then obtain sc' where "stopStep now w sc = (w', sc')"
      using assms(1) by (auto split: prod.splits)
    from stopStep_transactions [OF this _ t] show ?thesis
      using assms(2,3) StopCall by auto
  qed
  then show "hasAccount w' (rfid t)" using assms(1) by (rule hasAccount_step [rotated])
qed

lemma running_invariant:
  "running w cs \<Longrightarrow>
     (\<forall>t \<in> set (transactions w). hasAccount w (rfid t)) \<and> (\<forall>c \<in> set cs. callOK w c)"
proof (induction rule: running.induct)
  case (boot w)
  then show ?case by simp
next
  case (requestStart w cs r p ty n)
  have "callOK w (StartCall (startCall r p ty n))"
    by (auto simp add: startCall_def split: option.splits)
  then show ?case using requestStart.IH by auto
next
  case (requestStop w cs i st)
  have "callOK w (StopCall (stopCall i st))"
    by (auto simp add: stopCall_def split: option.splits)
  then show ?case using requestStop.IH by auto
next
  case (step w cs k now w' c')
  have cur: "callOK w (cs ! k)" using step.IH step.hyps(2) nth_mem by blast
  have txs: "\<forall>t \<in> set (transactions w'). hasAccount w' (rfid t)"
    using callStep_transactions [OF step.hyps(3) cur] step.IH by blast
  have calls: "\<forall>c \<in> set (cs[k := c']). callOK w' c"
  proof
    fix c
    assume "c \<in> set (cs[k := c'])"
    then have "c = c' \<or> c \<in> set cs"
      using set_update_subset_insert [of cs k c'] by auto
    then show "callOK w' c"
    proof
      assume "c = c'"
      then show ?thesis using callStep_OK [OF step.hyps(3) cur] by simp
    next
      assume "c \<in> set cs"
      then show ?thesis using callOK_step_other [OF step.hyps(3)] step.IH by blast
    qed
  qed
  from txs calls show ?case by blast
qed

lemma reachable_account_exists:
  assumes "reachable w" and "t \<in> set (transactions w)"
  shows "\<exists>k s. docId (rfid t) = Some k \<and> students w k = Some s"
proof -
  from assms(1) obtain cs where "running w cs" unfolding reachable_def by blast
  then have "hasAccount w (rfid t)" using running_invariant assms(2) by blast
  then show ?thesis by (auto simp add: hasAccount_def split: option.splits)
qed

text \<open>
  C3. The claim is that no reachable state has two sessions in progress for one holder.
  Holder A1, with 100 points and no session, asks for socket 1 and then, while that
  request waits for the store after its check for an active session, for socket 2. The
  second request runs to its end, the first one goes on: the state reached has two
  sessions in progress for A1, one on each socket. This is the defect of C2, seen in the
  state instead of the answers.
\<close>

theorem overlapping_starts_two_active:
  "reachable (fst (runSchedule overtaking (freshWorld, [a1Call, a1SecondCall])))
   \<and> map (\<lambda>t. (rfid t, socketNumber t, status t))
        (transactions (fst (runSchedule overtaking (freshWorld, [a1Call, a1SecondCall]))))
       = [(''A1'', 2, InProgress), (''A1'', 1, InProgress)]
   \<and> activeCount (fst (runSchedule overtaking (freshWorld, [a1Call, a1SecondCall]))) ''A1'' = 2"
proof -
  have "running freshWorld []" by (rule running.boot) (simp add: freshWorld_def)
  then have "running freshWorld ([] @ [StartCall a1Call])"
    unfolding a1Call_def by (rule running.requestStart)
  then have "running freshWorld ([StartCall a1Call] @ [StartCall a1SecondCall])"
    unfolding a1SecondCall_def by (intro running.requestStart) simp
  then have "running (fst (freshWorld, [a1Call, a1SecondCall]))
               (map StartCall (snd (freshWorld, [a1Call, a1SecondCall])))"
    by simp
  then have "running (fst (runSchedule overtaking (freshWorld, [a1Call, a1SecondCall])))
               (map StartCall (snd (runSchedule overtaking (freshWorld, [a1Call, a1SecondCall]))))"
    by (rule running_runSchedule)
  then have r: "reachable (fst (runSchedule overtaking (freshWorld, [a1Call, a1SecondCall])))"
    by (rule running_forget)
  have w: "transactions (fst (runSchedule overtaking (freshWorld, [a1Call, a1SecondCall]))) =
     [buildTransaction
        \<lparr> td_rfid = ''A1'', td_studentName = ''Alice'', td_email = ''alice@example.org'',
          td_pointsToSpend = 3, td_socketType = ''Universal Charger'', td_socketNumber = 2,
          td_startTime = None, td_expectedEndTime = Some 360022, td_status = None \<rparr> 97 23,
      buildTransaction
        \<lparr> td_rfid = ''A1'', td_studentName = ''Alice'', td_email = ''alice@example.org'',
          td_pointsToSpend = 5, td_socketType = ''Own Charger'', td_socketNumber = 1,
          td_startTime = None, td_expectedEndTime = Some 600020, td_status = None \<rparr> 92 30]"
    by (simp add: overtaking_def a1Call_def a1SecondCall_def startCall_def freshWorld_def
        alice_def docId_A1 getActiveTransaction_def activeDocs_def pointsOrZero_def Let_def
        writable_def timestampInRange_def seconds_def buildTransaction_def)
  show ?thesis using r by (simp add: w activeCount_def buildTransaction_def)
qed

section \<open>The checks of a start request\<close>

text \<open>
  C7. A start request whose four fields are present and non-empty, and whose holder id is
  a document reference, is answered by the first of these that applies: 404 (student not
  found) when the holder has no account; else 400 (active session exists) when the
  holder id has a session in progress; else 500 (insufficient points) when the balance
  is below the points to spend; else success, or 500 when the expected end is a time the
  store cannot hold. The answers being distinct, each of the three failures is returned
  exactly when its condition holds and no earlier one does.
\<close>

theorem start_error_order:
  assumes "r \<noteq> []" "p \<noteq> 0" "ty \<noteq> []" "n \<noteq> 0" and ref: "docId r = Some k"
  shows "fst (startChargingSession w (Some r) (Some p) (Some ty) (Some n) dateNow now nowLater) =
     (case students w k of
        None \<Rightarrow> Failure 404 StudentNotFound
      | Some s \<Rightarrow>
          if 0 < activeCount w r then Failure 400 ActiveSessionExists
          else if pointsOrZero s < p then Failure 500 InsufficientPoints
          else if timestampInRange (dateNow + p * 120 * 1000)
               then Started (length (transactions w)) (Some (pointsOrZero s - p)) (p * 120)
               else Failure 500 TimestampOutOfRange)"
proof (cases "students w k")
  case None
  then show ?thesis using assms by (simp add: startChargingSession_def)
next
  case (Some s)
  show ?thesis
  proof (cases "getActiveTransaction w r")
    case None
    then have "activeCount w r = 0" by (simp add: getActive_None_count)
    then show ?thesis using assms Some None
      by (simp add: startChargingSession_def createTransaction_def Let_def writable_def
          buildTransaction_def)
  next
    case (Some a)
    then have "0 < activeCount w r" by (rule getActive_Some_count)
    then show ?thesis using assms \<open>students w k = Some s\<close> Some
      by (simp add: startChargingSession_def)
  qed
qed

text \<open>
  A1 has a session in progress and only 90 points: a request for 500 points is answered
  with the earlier of the two failures.
\<close>

theorem start_error_order_witness:
  "fst (startChargingSession leaseWorld (Some ''A1'') (Some 500) (Some ''Own Charger'') (Some 2)
          0 0 0) = Failure 400 ActiveSessionExists"
proof -
  have v: "''A1'' \<noteq> []" "(500::int) \<noteq> 0" "''Own Charger'' \<noteq> []" "(2::int) \<noteq> 0"
    by simp_all
  have c: "activeCount leaseWorld ''A1'' = 1"
    by (simp add: activeCount_def leaseWorld_transactions buildTransaction_def)
  show ?thesis
    using start_error_order [OF v docId_A1, of leaseWorld 0 0 0] c
    by (simp add: leaseWorld_students)
qed

text \<open>
  A holder id that is no document reference, such as one with a single slash in the
  middle, is answered with 500 before any check, and a request that would pass all checks
  but whose expected end lies beyond the year 9999 is answered with 500 and writes
  nothing: Carol's request for 2200 million points.
\<close>

lemma start_invalid_reference:
  assumes "r \<noteq> []" "p \<noteq> 0" "ty \<noteq> []" "n \<noteq> 0" and "docId r = None"
  shows "startChargingSession w (Some r) (Some p) (Some ty) (Some n) dateNow now nowLater =
           (Failure 500 InvalidDocumentReference, w)"
  using assms by (simp add: startChargingSession_def)

lemma start_slash_id_rejected:
  "startChargingSession w (Some ''A/1'') (Some 5) (Some ''Own Charger'') (Some 1) dateNow now nowLater
     = (Failure 500 InvalidDocumentReference, w)"
  by (simp add: startChargingSession_def docId_slash)

lemma start_out_of_range_rejected:
  assumes "r \<noteq> []" "p \<noteq> 0" "ty \<noteq> []" "n \<noteq> 0"
    and "docId r = Some k" "students w k = Some s" "activeCount w r = 0" "p \<le> pointsOrZero s"
    and "\<not> timestampInRange (dateNow + p * 120 * 1000)"
  shows "startChargingSession w (Some r) (Some p) (Some ty) (Some n) dateNow now nowLater =
           (Failure 500 TimestampOutOfRange, w)"
  using assms
  by (simp add: startChargingSession_def createTransaction_def Let_def writable_def
      buildTransaction_def getActive_None_count [symmetric])

lemma start_huge_points_rejected:
  "startChargingSession richWorld (Some ''C3'') (Some 2200000000) (Some ''Own Charger'') (Some 1)
      1700000000000 1700000000050 1700000000090
     = (Failure 500 TimestampOutOfRange, richWorld)"
proof -
  have "students richWorld ''C3'' = Some carol" by (simp add: richWorld_def)
  moreover have "activeCount richWorld ''C3'' = 0" by (simp add: activeCount_def richWorld_def)
  moreover have "(2200000000::int) \<le> pointsOrZero carol" by (simp add: pointsOrZero_def carol_def)
  moreover have "\<not> timestampInRange (1700000000000 + 2200000000 * 120 * 1000)"
    by (simp add: timestampInRange_def seconds_def)
  ultimately show ?thesis
    by (intro start_out_of_range_rejected [OF _ _ _ _ docId_C3]) simp_all
qed

lemma start_failure_unchanged:
  "isFailure (fst (startChargingSession w r p ty n dateNow now nowLater)) \<Longrightarrow>
     snd (startChargingSession w r p ty n dateNow now nowLater) = w"
  by (auto simp add: startChargingSession_def createTransaction_def Let_def
        split: option.splits if_splits)

lemma start_zero_rejected:
  "p = None \<or> p = Some 0 \<Longrightarrow>
     startChargingSession w r p ty n dateNow now nowLater = (Failure 400 MissingFields, w)"
  by (auto simp add: startChargingSession_def split: option.splits)

section \<open>Points to spend that are not positive\<close>

text \<open>
  C5. A request for 0 points (or none) is rejected with status 400 and changes nothing, as
  the two lemmas above show. A request for a negative number passes the validation, which
  only tests for a missing value: holder A1 with 100 points asks for -5 points, the
  request succeeds, a session of -5 points and -600 seconds is created and the balance
  rises to 105.
\<close>

theorem start_negative_points:
  "fst (startChargingSession freshWorld (Some ''A1'') (Some (- 5)) (Some ''Own Charger'') (Some 1) 0 0 0)
     = Started 0 (Some 105) (- 600)
   \<and> map_option points
       (students (snd (startChargingSession freshWorld (Some ''A1'') (Some (- 5))
                        (Some ''Own Charger'') (Some 1) 0 0 0)) ''A1'') = Some (Some 105)
   \<and> map pointsUsed
       (transactions (snd (startChargingSession freshWorld (Some ''A1'') (Some (- 5))
                        (Some ''Own Charger'') (Some 1) 0 0 0))) = [- 5]"
  by (simp add: startChargingSession_def freshWorld_def alice_def docId_A1
      getActiveTransaction_def activeDocs_def createTransaction_def pointsOrZero_def Let_def
      buildTransaction_def writable_def timestampInRange_def seconds_def)

section \<open>Expected end of a session\<close>

lemma start_times:
  assumes "startChargingSession w (Some r) (Some p) ty n dateNow now nowLater = (Started i rem d, w')"
  shows "getTransactionDoc w' i = Some t \<Longrightarrow>
         expectedEndTime t = Some (dateNow + p * 120 * 1000) \<and> startTime t = now \<and> d = p * 120"
  using assms
  by (auto simp add: startChargingSession_def createTransaction_def Let_def getTransactionDoc_def
        buildTransaction_def nth_append
        split: option.splits if_splits)

text \<open>
  C6. The expected end is computed by the controller from its own clock read (line 214);
  the start time is a later clock read inside \<^verbatim>\<open>createTransaction\<close>, after a round trip to
  the store. With the first read at 999 ms and the second at 1001 ms, a 1-point session
  has its expected end 119998 ms after its start, and 119 whole seconds apart, not 120.
\<close>

theorem start_expected_end_drift:
  "map (\<lambda>t. (expectedEndTime t, startTime t))
     (transactions (snd (startChargingSession freshWorld (Some ''A1'') (Some 1)
                        (Some ''Own Charger'') (Some 1) 999 1001 1002)))
     = [(Some 120999, 1001)]
   \<and> seconds 120999 - seconds 1001 = 119
   \<and> (120999::int) - 1001 \<noteq> 1 * 120 * 1000"
  by (simp add: startChargingSession_def freshWorld_def alice_def docId_A1
      getActiveTransaction_def activeDocs_def createTransaction_def pointsOrZero_def Let_def
      buildTransaction_def seconds_def writable_def timestampInRange_def)

section \<open>Stopping a session that is already terminal\<close>

lemma complete_terminal:
  assumes "getTransactionDoc w i = Some txn" and "status txn \<noteq> InProgress"
  shows "completeTransaction w i fs now =
     (Inr (i, txn\<lparr>status := fs, actualEndTime := Some now,
                  duration := Some (seconds now - seconds (startTime txn)), updatedAt := now\<rparr>),
      w\<lparr>transactions := (transactions w)[i := txn\<lparr>status := fs, actualEndTime := Some now,
                  duration := Some (seconds now - seconds (startTime txn)), updatedAt := now\<rparr>]\<rparr>)"
  using assms
  by (auto simp add: completeTransaction_def Let_def finishTransaction_def getTransactionDoc_def
      split: if_splits)

text \<open>
  C4, as the code has it. A stop request for a session that is already completed or
  cancelled is not rejected. It credits no account: the collection of students is
  unchanged. It writes the session again: status becomes the requested one, the actual
  end time and the update time become the current time, the duration the seconds elapsed
  since the start; the other fields and the other sessions stay as they are. When the
  holder's account exists the answer is a success.
\<close>

theorem stop_terminal:
  assumes doc: "getTransactionDoc w i = Some txn" and fin: "status txn \<noteq> InProgress"
  shows "students (snd (stopChargingSession w (Some i) st now)) = students w
     \<and> getTransactionDoc (snd (stopChargingSession w (Some i) st now)) i =
         Some (txn\<lparr>status := (if st = Some ''cancelled'' then Cancelled else Completed),
                   actualEndTime := Some now,
                   duration := Some (seconds now - seconds (startTime txn)),
                   updatedAt := now\<rparr>)
     \<and> (\<forall>j. j \<noteq> i \<longrightarrow> getTransactionDoc (snd (stopChargingSession w (Some i) st now)) j =
                       getTransactionDoc w j)
     \<and> ((\<exists>k s. docId (rfid txn) = Some k \<and> students w k = Some s) \<longrightarrow>
          \<not> isFailure (fst (stopChargingSession w (Some i) st now)))"
proof -
  have i: "i < length (transactions w)"
    using doc by (simp add: getTransactionDoc_def split: if_splits)
  show ?thesis
    using i by (auto simp add: stopChargingSession_def Let_def complete_terminal [OF doc fin]
        getTransactionDoc_def split: option.splits)
qed

lemma cancelledWorld_transactions: "transactions cancelledWorld = [cancelledTxn]"
  by (simp add: cancelledWorld_def stopChargingSession_def completeTransaction_def Let_def
      getTransactionDoc_def finishTransaction_def leaseWorld_transactions leaseWorld_students
      buildTransaction_def seconds_def pointsOrZero_def alice_def cancelledTxn_def docId_A1
      split: prod.splits)

lemma cancelledWorld_students:
  "students cancelledWorld ''A1'' = Some (alice\<lparr>points := Some 98, lastUsed := Some 0\<rparr>)"
  by (simp add: cancelledWorld_def stopChargingSession_def completeTransaction_def Let_def
      getTransactionDoc_def finishTransaction_def leaseWorld_transactions leaseWorld_students
      buildTransaction_def seconds_def pointsOrZero_def alice_def docId_A1
      split: prod.splits)

lemma cancelledWorld_doc: "getTransactionDoc cancelledWorld 0 = Some cancelledTxn"
  by (simp add: getTransactionDoc_def cancelledWorld_transactions)

text \<open>
  The cancelled session of A1 is stopped a second time at 130 seconds: the request
  succeeds and the actual end time of the record moves from 125400 to 130000.
\<close>

theorem stop_terminal_counterexample:
  "\<not> isFailure (fst (stopChargingSession cancelledWorld (Some 0) (Some ''cancelled'') 130000))
   \<and> map_option actualEndTime (getTransactionDoc cancelledWorld 0) = Some (Some 125400)
   \<and> map_option actualEndTime
        (getTransactionDoc
           (snd (stopChargingSession cancelledWorld (Some 0) (Some ''cancelled'') 130000)) 0)
       = Some (Some 130000)"
proof -
  have fin: "status cancelledTxn \<noteq> InProgress" by (simp add: cancelledTxn_def)
  have r: "rfid cancelledTxn = ''A1''" by (simp add: cancelledTxn_def buildTransaction_def)
  have a: "actualEndTime cancelledTxn = Some 125400" by (simp add: cancelledTxn_def)
  show ?thesis
    using a by (auto simp add: stopChargingSession_def complete_terminal [OF cancelledWorld_doc fin]
        r cancelledWorld_students getTransactionDoc_def cancelledWorld_transactions docId_A1)
qed

text \<open>After that second stop the balance of A1 is still 98.\<close>

theorem stop_terminal_witness:
  "map_option points
     (students (snd (stopChargingSession cancelledWorld (Some 0) (Some ''cancelled'') 130000)) ''A1'')
     = Some (Some 98)"
proof -
  have fin: "status cancelledTxn \<noteq> InProgress" by (simp add: cancelledTxn_def)
  show ?thesis
    using stop_terminal [OF cancelledWorld_doc fin, of "Some ''cancelled''" 130000]
    by (simp add: cancelledWorld_students)
qed

section \<open>Stop requests and the relays\<close>

lemma stop_relay_unchanged:
  "gpioInstances (snd (stopChargingSession w i st now)) = gpioInstances w
   \<and> constructed (snd (stopChargingSession w i st now)) = constructed w"
  by (auto simp add: stopChargingSession_def completeTransaction_def Let_def finishTransaction_def
      split: option.splits prod.splits sum.splits if_splits)

lemma turnOff_effect:
  assumes "lineMap n = Some gpioNumber"
  shows "\<exists>w'. turnOffSocket w n = Inr w'
          \<and> map_option gpio_value (gpioInstances w' n) = Some 0
          \<and> (\<forall>m. m \<noteq> n \<longrightarrow> gpioInstances w' m = gpioInstances w m)
          \<and> students w' = students w \<and> transactions w' = transactions w"
  using assms
  by (auto simp add: turnOffSocket_def ensureInstance_def writeSocket_def writeSync_def newGpio_def
      split: option.splits)

text \<open>
  C8, as the code has it. A stop request writes to no pin: the registry of pin instances,
  and with it the state of every socket, is the same after the request as before, and no
  instance is constructed. Switching a socket off is a separate operation that the stop
  flow does not call; for a socket number of the line map it leaves that socket's pin at
  0, every other socket as it was, and the store untouched.
\<close>

theorem stop_no_actuation:
  "gpioInstances (snd (stopChargingSession w i st now)) = gpioInstances w
   \<and> constructed (snd (stopChargingSession w i st now)) = constructed w
   \<and> (lineMap n \<noteq> None \<longrightarrow>
        (\<exists>w'. turnOffSocket w n = Inr w'
          \<and> map_option gpio_value (gpioInstances w' n) = Some 0
          \<and> (\<forall>m. m \<noteq> n \<longrightarrow> gpioInstances w' m = gpioInstances w m)
          \<and> students w' = students w \<and> transactions w' = transactions w))"
  using stop_relay_unchanged [of w i st now] turnOff_effect [of n _ w] by auto

lemma relayWorld_gpio:
  "gpioInstances relayWorld = [1 \<mapsto> \<lparr> pin = 73, direction = ''out'', gpio_value = 1 \<rparr>]"
  by (simp add: relayWorld_def turnOnSocket_def lineMap_def ensureInstance_def writeSocket_def
      writeSync_def newGpio_def leaseWorld_def startChargingSession_def freshWorld_def alice_def
      getActiveTransaction_def activeDocs_def createTransaction_def pointsOrZero_def Let_def
      docId_A1 writable_def buildTransaction_def timestampInRange_def seconds_def)

lemma relayWorld_store:
  "transactions relayWorld = transactions leaseWorld \<and> students relayWorld = students leaseWorld"
  by (simp add: relayWorld_def turnOnSocket_def lineMap_def ensureInstance_def writeSocket_def
      split: option.splits)

text \<open>
  The session of A1 on socket 1 is stopped while socket 1 is on: the request succeeds and
  the pin of socket 1 still has value 1.
\<close>

theorem stop_no_actuation_counterexample:
  "\<not> isFailure (fst (stopChargingSession relayWorld (Some 0) (Some ''completed'') 600000))
   \<and> map socketNumber (transactions relayWorld) = [1]
   \<and> map_option gpio_value
        (gpioInstances (snd (stopChargingSession relayWorld (Some 0) (Some ''completed'') 600000)) 1)
       = Some 1"
proof -
  have "gpioInstances (snd (stopChargingSession relayWorld (Some 0) (Some ''completed'') 600000))
          = gpioInstances relayWorld"
    using stop_relay_unchanged by blast
  moreover have "\<not> isFailure (fst (stopChargingSession relayWorld (Some 0) (Some ''completed'') 600000))"
    by (simp add: stopChargingSession_def completeTransaction_def Let_def getTransactionDoc_def
        finishTransaction_def relayWorld_store leaseWorld_transactions leaseWorld_students
        buildTransaction_def docId_A1 split: prod.splits)
  moreover have "map socketNumber (transactions relayWorld) = [1]"
    by (simp add: relayWorld_store leaseWorld_transactions buildTransaction_def)
  ultimately show ?thesis by (simp add: relayWorld_gpio)
qed

text \<open>Socket 1 is in the line map, and switching it off in that state leaves its pin at 0.\<close>

theorem stop_no_actuation_witness:
  "lineMap 1 \<noteq> None
   \<and> (\<exists>w'. turnOffSocket relayWorld 1 = Inr w'
          \<and> map_option gpio_value (gpioInstances w' 1) = Some 0)"
proof -
  have v: "lineMap 1 \<noteq> None" by (simp add: lineMap_def)
  show ?thesis
    using v stop_no_actuation [of relayWorld None None 0 1] by blast
qed

section \<open>Switching sockets on and off\<close>

lemma ensure_then_write:
  "writeSocket (ensureInstance w n gpioNumber) n v =
     (case gpioInstances w n of
        Some g \<Rightarrow> w\<lparr>gpioInstances := (gpioInstances w)(n \<mapsto> g\<lparr>gpio_value := v\<rparr>)\<rparr>
      | None \<Rightarrow> w\<lparr>gpioInstances := (gpioInstances w)(n \<mapsto> \<lparr>pin = gpioNumber, direction = ''out'', gpio_value = v\<rparr>),
                  constructed := constructed w @ [gpioNumber]\<rparr>)"
  by (simp add: ensureInstance_def writeSocket_def writeSync_def newGpio_def split: option.splits)

lemma write_twice:
  "writeSocket (ensureInstance (writeSocket (ensureInstance w n gpioNumber) n v) n gpioNumber) n v =
     writeSocket (ensureInstance w n gpioNumber) n v"
  by (simp add: ensureInstance_def writeSocket_def writeSync_def newGpio_def split: option.splits)

lemma write_value:
  "map_option gpio_value (gpioInstances (writeSocket (ensureInstance w n gpioNumber) n v) n) = Some v"
  by (simp add: ensure_then_write split: option.splits)

lemma write_constructed:
  "constructed (writeSocket (ensureInstance w n gpioNumber) n v) =
     (if gpioInstances w n = None then constructed w @ [gpioNumber] else constructed w)"
  by (simp add: ensure_then_write split: option.splits)

lemma write_handle:
  "gpioInstances w n = Some g \<Longrightarrow>
     gpioInstances (writeSocket (ensureInstance w n gpioNumber) n v) n = Some (g\<lparr>gpio_value := v\<rparr>)"
  by (simp add: ensure_then_write)

lemma sigint_off:
  "gpioInstances (onSIGINT w) m = map_option (\<lambda>g. g\<lparr>gpio_value := 0\<rparr>) (gpioInstances w m)"
  by (simp add: onSIGINT_def unexport_def writeSync_def)

text \<open>
  C9. For a socket number of the line map, switching the socket on succeeds, leaves its
  pin at 1, and a second call in a row returns the very same state; likewise for
  switching off, with 0. A pin instance is constructed only when the socket has none yet,
  so the second call constructs nothing and the instance of the first call is used again.
  The interrupt handler leaves every registered instance at 0, whatever its value was,
  and registers nothing new.
\<close>

theorem relay_idempotent:
  assumes valid: "lineMap n = Some gpioNumber"
  shows "(\<exists>w1. turnOnSocket w n = Inr w1 \<and> turnOnSocket w1 n = Inr w1
            \<and> map_option gpio_value (gpioInstances w1 n) = Some 1
            \<and> constructed w1 =
                (if gpioInstances w n = None then constructed w @ [gpioNumber] else constructed w))
       \<and> (\<exists>w0. turnOffSocket w n = Inr w0 \<and> turnOffSocket w0 n = Inr w0
            \<and> map_option gpio_value (gpioInstances w0 n) = Some 0
            \<and> constructed w0 =
                (if gpioInstances w n = None then constructed w @ [gpioNumber] else constructed w))
       \<and> (\<forall>m g. gpioInstances w m = Some g \<longrightarrow>
             gpioInstances (onSIGINT w) m = Some (g\<lparr>gpio_value := 0\<rparr>))
       \<and> (\<forall>m. gpioInstances w m = None \<longrightarrow> gpioInstances (onSIGINT w) m = None)"
proof -
  have on: "\<exists>w1. turnOnSocket w n = Inr w1 \<and> turnOnSocket w1 n = Inr w1
            \<and> map_option gpio_value (gpioInstances w1 n) = Some 1
            \<and> constructed w1 =
                (if gpioInstances w n = None then constructed w @ [gpioNumber] else constructed w)"
  proof -
    let ?v = "writeSocket (ensureInstance w n gpioNumber) n 1"
    have "turnOnSocket w n = Inr ?v" using valid by (simp add: turnOnSocket_def)
    moreover have "turnOnSocket ?v n = Inr ?v" using valid by (simp add: turnOnSocket_def write_twice)
    moreover have "map_option gpio_value (gpioInstances ?v n) = Some 1" by (rule write_value)
    moreover have "constructed ?v =
        (if gpioInstances w n = None then constructed w @ [gpioNumber] else constructed w)"
      by (rule write_constructed)
    ultimately show ?thesis by blast
  qed
  have off: "\<exists>w0. turnOffSocket w n = Inr w0 \<and> turnOffSocket w0 n = Inr w0
            \<and> map_option gpio_value (gpioInstances w0 n) = Some 0
            \<and> constructed w0 =
                (if gpioInstances w n = None then constructed w @ [gpioNumber] else constructed w)"
  proof -
    let ?v = "writeSocket (ensureInstance w n gpioNumber) n 0"
    have "turnOffSocket w n = Inr ?v" using valid by (simp add: turnOffSocket_def)
    moreover have "turnOffSocket ?v n = Inr ?v" using valid by (simp add: turnOffSocket_def write_twice)
    moreover have "map_option gpio_value (gpioInstances ?v n) = Some 0" by (rule write_value)
    moreover have "constructed ?v =
        (if gpioInstances w n = None then constructed w @ [gpioNumber] else constructed w)"
      by (rule write_constructed)
    ultimately show ?thesis by blast
  qed
  have down: "\<forall>m g. gpioInstances w m = Some g \<longrightarrow>
             gpioInstances (onSIGINT w) m = Some (g\<lparr>gpio_value := 0\<rparr>)"
    by (simp add: sigint_off)
  have none: "\<forall>m. gpioInstances w m = None \<longrightarrow> gpioInstances (onSIGINT w) m = None"
    by (simp add: sigint_off)
  from on off down none show ?thesis by blast
qed

text \<open>
  Socket 1, never used before: one instance for pin 73 is constructed by two calls in a
  row. Socket 1 switched on: after the interrupt handler its pin is at 0.
\<close>

theorem relay_idempotent_witness:
  "lineMap 1 = Some 73
   \<and> (\<exists>w1. turnOnSocket freshWorld 1 = Inr w1 \<and> turnOnSocket w1 1 = Inr w1
          \<and> constructed w1 = [73])
   \<and> gpioInstances (onSIGINT relayWorld) 1 = Some \<lparr> pin = 73, direction = ''out'', gpio_value = 0 \<rparr>"
proof -
  have v: "lineMap 1 = Some 73" by (simp add: lineMap_def)
  have g: "gpioInstances relayWorld 1 = Some \<lparr> pin = 73, direction = ''out'', gpio_value = 1 \<rparr>"
    by (simp add: relayWorld_gpio)
  have f: "gpioInstances freshWorld 1 = None" "constructed freshWorld = []"
    by (simp_all add: freshWorld_def)
  show ?thesis
    using v relay_idempotent [OF v, of freshWorld] relay_idempotent [OF v, of relayWorld] g f
    by auto
qed

section \<open>Accounts without a points field\<close>

text \<open>
  C10. For an account whose \<^verbatim>\<open>points\<close> field is absent or null, the balance counts as 0 on
  both paths. Debit: \<^verbatim>\<open>createTransaction\<close> for a positive number of points throws
  "insufficient points" and changes nothing, and so does a start request that has passed
  the earlier checks (fields present, no session in progress). Credit: cancelling a
  session in progress of that holder with a positive refund stores exactly the refund as
  the new balance.
\<close>

theorem absent_points_as_zero:
  assumes ref: "docId r = Some k" and acct: "students w k = Some s" and absent: "points s = None"
  shows "(0 < td_pointsToSpend td \<and> td_rfid td = r \<longrightarrow>
            createTransaction w td now nowLater = (Inl InsufficientPoints, w))
       \<and> (0 < p \<and> r \<noteq> [] \<and> ty \<noteq> [] \<and> n \<noteq> 0 \<and> activeCount w r = 0 \<longrightarrow>
            startChargingSession w (Some r) (Some p) (Some ty) (Some n) dateNow now nowLater =
              (Failure 500 InsufficientPoints, w))
       \<and> (getTransactionDoc w i = Some txn \<and> rfid txn = r \<and> status txn = InProgress
            \<and> 0 < pointsUsed txn - \<lceil>real_of_int (min (seconds now - seconds (startTime txn))
                                                 (pointsUsed txn * 120)) / 120\<rceil> \<longrightarrow>
            map_option points (students (snd (completeTransaction w i Cancelled now)) k) =
              Some (Some (pointsUsed txn - \<lceil>real_of_int (min (seconds now - seconds (startTime txn))
                                                 (pointsUsed txn * 120)) / 120\<rceil>)))"
proof -
  have z: "pointsOrZero s = 0" using absent by (simp add: pointsOrZero_def)
  have debit: "0 < td_pointsToSpend td \<and> td_rfid td = r \<longrightarrow>
            createTransaction w td now nowLater = (Inl InsufficientPoints, w)"
    using ref acct z by (simp add: createTransaction_def)
  have start: "0 < p \<and> r \<noteq> [] \<and> ty \<noteq> [] \<and> n \<noteq> 0 \<and> activeCount w r = 0 \<longrightarrow>
            startChargingSession w (Some r) (Some p) (Some ty) (Some n) dateNow now nowLater =
              (Failure 500 InsufficientPoints, w)"
    using ref acct z
    by (auto simp add: startChargingSession_def createTransaction_def getActive_None_count [symmetric]
        split: option.splits)
  have credit: "getTransactionDoc w i = Some txn \<and> rfid txn = r \<and> status txn = InProgress
            \<and> 0 < pointsUsed txn - \<lceil>real_of_int (min (seconds now - seconds (startTime txn))
                                                 (pointsUsed txn * 120)) / 120\<rceil> \<longrightarrow>
            map_option points (students (snd (completeTransaction w i Cancelled now)) k) =
              Some (Some (pointsUsed txn - \<lceil>real_of_int (min (seconds now - seconds (startTime txn))
                                                 (pointsUsed txn * 120)) / 120\<rceil>))"
    using ref acct z
    by (auto simp add: completeTransaction_def Let_def finishTransaction_def)
  from debit start credit show ?thesis by blast
qed

text \<open>
  Holder B2 has no points field: a request for 1 point fails with insufficient points,
  and cancelling B2's 10-point session after 125 seconds leaves a balance of 8.
\<close>

theorem absent_points_as_zero_witness:
  "startChargingSession noPointsWorld (Some ''B2'') (Some 1) (Some ''Own Charger'') (Some 2) 0 0 0
     = (Failure 500 InsufficientPoints, noPointsWorld)
   \<and> map_option points
       (students (snd (completeTransaction noPointsLeaseWorld 0 Cancelled 125400)) ''B2'')
       = Some (Some 8)"
proof -
  have a1: "students noPointsWorld ''B2'' = Some noPoints"
    by (simp add: noPointsWorld_def)
  have a2: "students noPointsLeaseWorld ''B2'' = Some noPoints"
    by (simp add: noPointsLeaseWorld_def noPointsWorld_def)
  have ab: "points noPoints = None" by (simp add: noPoints_def)
  have c: "activeCount noPointsWorld ''B2'' = 0"
    by (simp add: activeCount_def noPointsWorld_def)
  have d: "getTransactionDoc noPointsLeaseWorld 0 = Some bo_txn"
    by (simp add: getTransactionDoc_def noPointsLeaseWorld_def)
  have t: "rfid bo_txn = ''B2''" "status bo_txn = InProgress" "pointsUsed bo_txn = 10"
    "startTime bo_txn = 0"
    by (simp_all add: bo_txn_def buildTransaction_def)
  have first: "startChargingSession noPointsWorld (Some ''B2'') (Some 1) (Some ''Own Charger'') (Some 2) 0 0 0
     = (Failure 500 InsufficientPoints, noPointsWorld)"
    using absent_points_as_zero [OF docId_B2 a1 ab, where p = 1 and ty = "''Own Charger''" and n = 2
        and dateNow = 0 and now = 0 and nowLater = 0] c
    by simp
  have second: "map_option points
       (students (snd (completeTransaction noPointsLeaseWorld 0 Cancelled 125400)) ''B2'')
       = Some (Some 8)"
    using absent_points_as_zero [OF docId_B2 a2 ab, where i = 0 and txn = bo_txn and now = 125400] d t
    by (simp add: seconds_def)
  from first second show ?thesis by simp
qed

section \<open>Two start requests at once\<close>

text \<open>A second request that begins after a successful one has ended is turned away.\<close>

lemma start_then_start_conflict:
  assumes first: "startChargingSession w (Some r) p ty n dateNow now nowLater = (Started i rem d, w')"
    and valid: "r \<noteq> []" "p2 \<noteq> 0" "ty2 \<noteq> []" "n2 \<noteq> 0"
  shows "startChargingSession w' (Some r) (Some p2) (Some ty2) (Some n2) dateNow2 now2 nowLater2 =
           (Failure 400 ActiveSessionExists, w')"
proof -
  have "(\<exists>k. docId r = Some k \<and> students w' k \<noteq> None) \<and> 0 < activeCount w' r"
    using first
    by (auto simp add: startChargingSession_def createTransaction_def Let_def activeCount_def
        buildTransaction_def split: option.splits if_splits)
  then have "getActiveTransaction w' r \<noteq> None \<and> (\<exists>k. docId r = Some k \<and> students w' k \<noteq> None)"
    by (simp add: getActive_None_count)
  then show ?thesis using valid
    by (auto simp add: startChargingSession_def)
qed

text \<open>
  C2. The check for an active session and the creation of the session are separate store
  operations with an \<^verbatim>\<open>await\<close> between them. Holder A1 has 100 points and no session, and
  sends two requests for 5 points. Turn by turn, both requests pass the check before
  either creates its session: both succeed, A1 has two sessions in progress, and the
  balance is 95 (the second write of the balance overwrites the first). When the second
  request runs from start to end after the first has passed its check, both succeed
  again, with two sessions in progress and a balance of 90. Neither request is answered
  with the failure for an active session.
\<close>

theorem overlapping_starts_both_succeed:
  "map_option points (students freshWorld ''A1'') = Some (Some 100)
   \<and> activeCount freshWorld ''A1'' = 0
   \<and> snd (runSchedule alternating (freshWorld, [a1Call, a1Call])) =
       [Responded (Started 0 (Some 95) 600), Responded (Started 1 (Some 95) 600)]
   \<and> activeCount (fst (runSchedule alternating (freshWorld, [a1Call, a1Call]))) ''A1'' = 2
   \<and> map_option points
        (students (fst (runSchedule alternating (freshWorld, [a1Call, a1Call]))) ''A1'')
       = Some (Some 95)
   \<and> snd (runSchedule overtaking (freshWorld, [a1Call, a1Call])) =
       [Responded (Started 1 (Some 90) 600), Responded (Started 0 (Some 95) 600)]
   \<and> activeCount (fst (runSchedule overtaking (freshWorld, [a1Call, a1Call]))) ''A1'' = 2
   \<and> map_option points
        (students (fst (runSchedule overtaking (freshWorld, [a1Call, a1Call]))) ''A1'')
       = Some (Some 90)"
  by (simp add: alternating_def overtaking_def a1Call_def startCall_def freshWorld_def alice_def
      getActiveTransaction_def activeDocs_def pointsOrZero_def Let_def buildTransaction_def
      activeCount_def docId_A1 writable_def timestampInRange_def seconds_def)

end
